theory Spec2Isabelle
  imports Main
begin

section \<open>Values of the inner builder\<close>

text \<open>
  The wrapper of \<^verbatim>\<open>src/src/builder-factory.ts\<close> inspects the members of an arbitrary
  object with \<^verbatim>\<open>typeof\<close>. The values it can meet are modelled by a datatype. A property
  key is a string or a symbol. A function value is an index into a table of method
  bodies (the table is a parameter of every operation that runs inner code), because a
  function stored inside the datatype itself would not be a datatype of HOL.
\<close>

datatype pkey = SKey string | Sym nat

datatype jsval =
    Undefined
  | Null
  | Bool bool
  | Num int
  | Str string
  | Fn nat
  | Obj "(pkey \<times> jsval) list"
  | Arr "jsval list"

type_synonym obj = "(pkey \<times> jsval) list"

text \<open>What a method body was called on: the raw instance, or a group object.\<close>

datatype this_arg = ThisInstance | ThisValue jsval

text \<open>A body ends by returning a value or by throwing one.\<close>

datatype completion = Return jsval | Throw jsval

text \<open>
  A method body reads and mutates the fields of the instance it belongs to. It is
  given its receiver, its arguments and the instance, and yields how it ended together
  with the instance as it left it (a body that throws keeps the mutations it made
  before). Bodies are total: a body that loops forever, and a body that reaches the
  wrapper again through an argument, are outside this model.
\<close>

type_synonym body = "this_arg \<Rightarrow> jsval list \<Rightarrow> obj \<Rightarrow> completion \<times> obj"

type_synonym funtab = "nat \<Rightarrow> body"

text \<open>A class is its constructor: it throws, or yields the new instance.\<close>

type_synonym cls = "jsval list \<Rightarrow> jsval + obj"

section \<open>Errors\<close>

text \<open>
  \<^verbatim>\<open>throw new Error(msg)\<close> of the wrapper is \<open>Error msg\<close>; calling something that is
  not a function, or constructing something that is not a constructor, is the engine's
  \<open>TypeError\<close>; a value thrown by inner code is \<open>Thrown\<close>.
\<close>

datatype error = Error string | TypeError | Thrown jsval

definition apostrophe :: char where
  "apostrophe = CHR 0x27"

definition already_called :: "string \<Rightarrow> string" where
  "already_called prop = ''Method '' @ [apostrophe] @ prop @ [apostrophe] @ '' already called''"

definition already_used :: "string \<Rightarrow> string" where
  "already_used prop = ''Group '' @ [apostrophe] @ prop @ [apostrophe] @ '' already used''"

section \<open>Reading JavaScript values\<close>

definition lookup :: "obj \<Rightarrow> pkey \<Rightarrow> jsval" where
  "lookup kvs k = (case map_of kvs k of None \<Rightarrow> Undefined | Some v \<Rightarrow> v)"

fun assign :: "obj \<Rightarrow> pkey \<Rightarrow> jsval \<Rightarrow> obj" where
  "assign [] k v = [(k, v)]"
| "assign ((k', v') # kvs) k v =
     (if k' = k then (k, v) # kvs else (k', v') # assign kvs k v)"

text \<open>\<^verbatim>\<open>typeof value === 'function'\<close>\<close>

fun is_function :: "jsval \<Rightarrow> bool" where
  "is_function (Fn _) = True"
| "is_function _ = False"

text \<open>\<^verbatim>\<open>typeof value === 'object' && value !== null\<close>: arrays are objects too.\<close>

fun is_object :: "jsval \<Rightarrow> bool" where
  "is_object (Obj _) = True"
| "is_object (Arr _) = True"
| "is_object _ = False"

text \<open>\<^verbatim>\<open>prop.startsWith('with')\<close>\<close>

definition startsWith :: "string \<Rightarrow> string \<Rightarrow> bool" where
  "startsWith s p = (take (length p) s = p)"

definition digit_char :: "nat \<Rightarrow> char" where
  "digit_char d = ''0123456789'' ! d"

fun show_nat :: "nat \<Rightarrow> string" where
  "show_nat n =
     (if n < 10 then [digit_char n] else show_nat (n div 10) @ [digit_char (n mod 10)])"

declare show_nat.simps [simp del]

text \<open>
  The string-keyed members that \<^verbatim>\<open>for (const key in value)\<close> enumerates, with the value
  \<^verbatim>\<open>value[key]\<close> of each: the string keys of an object (symbols are skipped), the indices
  of an array.
\<close>

fun string_members :: "(pkey \<times> jsval) list \<Rightarrow> (string \<times> jsval) list" where
  "string_members [] = []"
| "string_members ((SKey s, v) # kvs) = (s, v) # string_members kvs"
| "string_members ((Sym _, v) # kvs) = string_members kvs"

fun members :: "jsval \<Rightarrow> (string \<times> jsval) list" where
  "members (Obj kvs) = string_members kvs"
| "members (Arr xs) = zip (map show_nat [0..<length xs]) xs"
| "members _ = []"

definition for_in_keys :: "jsval \<Rightarrow> string list" where
  "for_in_keys value = map fst (members value)"

definition member :: "jsval \<Rightarrow> string \<Rightarrow> jsval" where
  "member value key = (case map_of (members value) key of None \<Rightarrow> Undefined | Some v \<Rightarrow> v)"

section \<open>The store, views and closures\<close>

text \<open>
  \<^verbatim>\<open>createBuilder\<close> allocates one instance and one \<^verbatim>\<open>Set<string>\<close>, and every
  \<^verbatim>\<open>new Proxy(target, handler)\<close> allocates one more proxy object over them. The store
  holds the mutable objects by address; \<open>fresh\<close> is the next unused object identity.
\<close>

record world =
  instances :: "nat \<Rightarrow> obj"
  callsets :: "nat \<Rightarrow> string set"
  fresh :: nat

text \<open>
  A proxy object: its own identity, the address of its target, and what its handler
  closes over (the address of \<^verbatim>\<open>called\<close> and \<^verbatim>\<open>buildMethod\<close>).
\<close>

record view =
  view_id :: nat
  target :: nat
  called :: nat
  buildMethod :: string

text \<open>
  The three arrow functions the \<^verbatim>\<open>get\<close> trap creates, each with what it captures:
  line 28 (\<open>BuildFn\<close>: target and prop), lines 39-43 (\<open>MethodFn\<close>: prop, value and
  isOneTime), lines 53-57 (\<open>GroupFn\<close>: prop, value and key).
\<close>

datatype closure =
    BuildFn view string
  | MethodFn view string jsval bool
  | GroupFn view string jsval string

text \<open>What the \<^verbatim>\<open>get\<close> trap returns.\<close>

datatype wval =
    Plain jsval
  | Closure closure
  | GroupProxy "(string \<times> closure) list"

text \<open>What calling one of the closures returns.\<close>

datatype result = Value jsval | View view

section \<open>The wrapper\<close>

text \<open>Calling a value of the inner builder: \<^verbatim>\<open>value.apply(this, args)\<close>.\<close>

definition call_value :: "funtab \<Rightarrow> jsval \<Rightarrow> this_arg \<Rightarrow> jsval list \<Rightarrow> obj
    \<Rightarrow> (error + jsval) \<times> obj" where
  "call_value F f this args inst =
     (case f of
        Fn n \<Rightarrow>
          (case F n this args inst of
             (Return r, inst') \<Rightarrow> (Inr r, inst')
           | (Throw ex, inst') \<Rightarrow> (Inl (Thrown ex), inst'))
      | _ \<Rightarrow> (Inl TypeError, inst))"

text \<open>\<^verbatim>\<open>new Proxy(target, handler)\<close>, with the target and handler of the view \<open>v\<close>.\<close>

definition new_Proxy :: "view \<Rightarrow> world \<Rightarrow> view \<times> world" where
  "new_Proxy v w = (v\<lparr>view_id := fresh w\<rparr>, w\<lparr>fresh := Suc (fresh w)\<rparr>)"

text \<open>Lines 12-67, \<^verbatim>\<open>createBuilder\<close>.\<close>

definition createBuilder :: "cls \<Rightarrow> string \<Rightarrow> jsval list \<Rightarrow> world \<Rightarrow> (error + view) \<times> world" where
  "createBuilder c buildM args w =
     (case c args of
        Inl ex \<Rightarrow> (Inl (Thrown ex), w)
      | Inr instance \<Rightarrow>
          (let w1 = w\<lparr>instances := (instances w)(fresh w := instance),
                      callsets := (callsets w)(Suc (fresh w) := {}),
                      fresh := Suc (Suc (fresh w))\<rparr>;
               (v, w2) = new_Proxy \<lparr>view_id = 0, target = fresh w, called = Suc (fresh w),
                                     buildMethod = buildM\<rparr> w1
           in (Inr v, w2)))"

text \<open>Lines 25-63, the \<^verbatim>\<open>get\<close> trap of the handler. It reads the store and changes nothing.\<close>

definition handler_get :: "world \<Rightarrow> view \<Rightarrow> pkey \<Rightarrow> error + wval" where
  "handler_get w v prop =
     (case prop of
        Sym _ \<Rightarrow> Inr (Plain Undefined)
      | SKey p \<Rightarrow>
          if p = buildMethod v then Inr (Closure (BuildFn v p))
          else
            let value = lookup (instances w (target v)) prop in
            if is_function value then
              (let isOneTime = startsWith p ''with'' in
               if isOneTime \<and> p \<in> callsets w (called v) then Inl (Error (already_called p))
               else Inr (Closure (MethodFn v p value isOneTime)))
            else if is_object value then
              (if p \<in> callsets w (called v) then Inl (Error (already_used p))
               else Inr (GroupProxy (map (\<lambda>key. (key, GroupFn v p value key)) (for_in_keys value))))
            else Inr (Plain value))"

definition store_instance :: "nat \<Rightarrow> obj \<Rightarrow> world \<Rightarrow> world" where
  "store_instance a inst w = w\<lparr>instances := (instances w)(a := inst)\<rparr>"

definition called_add :: "nat \<Rightarrow> string \<Rightarrow> world \<Rightarrow> world" where
  "called_add a prop w = w\<lparr>callsets := (callsets w)(a := insert prop (callsets w a))\<rparr>"

text \<open>
  Calling a closure of the trap. The arrow function of line 28 takes no parameter, so
  what it is called with is dropped and the inner method gets no argument. The other
  two run the inner method first and reach \<^verbatim>\<open>called.add\<close> and \<^verbatim>\<open>new Proxy\<close> only when
  it returned.
\<close>

fun apply_closure :: "funtab \<Rightarrow> closure \<Rightarrow> jsval list \<Rightarrow> world \<Rightarrow> (error + result) \<times> world" where
  "apply_closure F (BuildFn v prop) args w =
     (case call_value F (lookup (instances w (target v)) (SKey prop)) ThisInstance []
             (instances w (target v)) of
        (Inl e, inst') \<Rightarrow> (Inl e, store_instance (target v) inst' w)
      | (Inr r, inst') \<Rightarrow> (Inr (Value r), store_instance (target v) inst' w))"
| "apply_closure F (MethodFn v prop value isOneTime) args w =
     (case call_value F value ThisInstance args (instances w (target v)) of
        (Inl e, inst') \<Rightarrow> (Inl e, store_instance (target v) inst' w)
      | (Inr r, inst') \<Rightarrow>
          (let w1 = store_instance (target v) inst' w;
               w2 = (if isOneTime then called_add (called v) prop w1 else w1);
               (v', w3) = new_Proxy v w2
           in (Inr (View v'), w3)))"
| "apply_closure F (GroupFn v prop value key) args w =
     (case call_value F (member value key) (ThisValue value) args (instances w (target v)) of
        (Inl e, inst') \<Rightarrow> (Inl e, store_instance (target v) inst' w)
      | (Inr r, inst') \<Rightarrow>
          (let w1 = store_instance (target v) inst' w;
               w2 = called_add (called v) prop w1;
               (v', w3) = new_Proxy v w2
           in (Inr (View v'), w3)))"

text \<open>Lines 77-88, \<^verbatim>\<open>createBuilderFactoryFor\<close>.\<close>

definition createBuilderFactoryFor :: "cls \<Rightarrow> string
    \<Rightarrow> jsval list \<Rightarrow> world \<Rightarrow> (error + view) \<times> world" where
  "createBuilderFactoryFor c buildM = (\<lambda>args. createBuilder c buildM args)"

text \<open>
  Lines 122-135, \<^verbatim>\<open>createBuilderFactory(...args)\<close>. Its two overloads take a class, or a
  method name and a class; an argument is one or the other. When no class is found
  where the code looks for it, \<^verbatim>\<open>new cls(...)\<close> is a TypeError once the factory is called.
\<close>

datatype farg = ClassArg cls | NameArg string

fun createBuilderFactory :: "farg list \<Rightarrow> jsval list \<Rightarrow> world \<Rightarrow> (error + view) \<times> world" where
  "createBuilderFactory (ClassArg c # rest) = (\<lambda>ctorArgs. createBuilder c ''build'' ctorArgs)"
| "createBuilderFactory (NameArg m # ClassArg c # rest) = (\<lambda>ctorArgs. createBuilder c m ctorArgs)"
| "createBuilderFactory _ = (\<lambda>ctorArgs w. (Inl TypeError, w))"

section \<open>What a caller writes\<close>

text \<open>
  \<^verbatim>\<open>b.m(args)\<close>: the property is read first (the trap runs), then the function it gave
  is called. Calling what is not a function is a TypeError.
\<close>

definition call_member :: "funtab \<Rightarrow> view \<Rightarrow> string \<Rightarrow> jsval list \<Rightarrow> world
    \<Rightarrow> (error + result) \<times> world" where
  "call_member F v m args w =
     (case handler_get w v (SKey m) of
        Inl e \<Rightarrow> (Inl e, w)
      | Inr (Closure c) \<Rightarrow> apply_closure F c args w
      | Inr _ \<Rightarrow> (Inl TypeError, w))"

text \<open>
  \<^verbatim>\<open>b.g.k(args)\<close>: the trap gives the group proxy, whose member \<open>k\<close> is called. The
  members that JavaScript's built-in prototypes would add are not modelled.
\<close>

definition call_group :: "funtab \<Rightarrow> view \<Rightarrow> string \<Rightarrow> string \<Rightarrow> jsval list \<Rightarrow> world
    \<Rightarrow> (error + result) \<times> world" where
  "call_group F v g k args w =
     (case handler_get w v (SKey g) of
        Inl e \<Rightarrow> (Inl e, w)
      | Inr (GroupProxy ms) \<Rightarrow>
          (case map_of ms k of
             Some c \<Rightarrow> apply_closure F c args w
           | None \<Rightarrow> (Inl TypeError, w))
      | Inr _ \<Rightarrow> (Inl TypeError, w))"

text \<open>Two views belong to one chain when they have the same target and the same handler.\<close>

definition same_chain :: "view \<Rightarrow> view \<Rightarrow> bool" where
  "same_chain v v' = (target v = target v' \<and> called v = called v' \<and> buildMethod v = buildMethod v')"

section \<open>The inner builder used directly\<close>

text \<open>
  \<^verbatim>\<open>inst.m(args)\<close> on the raw inner builder, without the wrapper, and a sequence of such
  calls of one method, in order. The second component is the instance afterwards.
\<close>

definition inner_call :: "funtab \<Rightarrow> obj \<Rightarrow> string \<Rightarrow> jsval list \<Rightarrow> (error + jsval) \<times> obj" where
  "inner_call F inst m args = call_value F (lookup inst (SKey m)) ThisInstance args inst"

fun inner_calls :: "funtab \<Rightarrow> string \<Rightarrow> jsval list list \<Rightarrow> obj \<Rightarrow> error option \<times> obj" where
  "inner_calls F m [] inst = (None, inst)"
| "inner_calls F m (args # rest) inst =
     (case inner_call F inst m args of
        (Inl e, inst') \<Rightarrow> (Some e, inst')
      | (Inr r, inst') \<Rightarrow> inner_calls F m rest inst')"

section \<open>Sequences of calls\<close>

text \<open>
  A call statement names the view it is made on. \<open>exec_all\<close> runs statements in order
  and keeps the store each one leaves, whether it returned or threw (the caller may
  catch, as \<^verbatim>\<open>expect(...).toThrow\<close> does in the tests).
\<close>

datatype stmt = CallMember view string "jsval list" | CallGroup view string string "jsval list"

fun exec :: "funtab \<Rightarrow> stmt \<Rightarrow> world \<Rightarrow> (error + result) \<times> world" where
  "exec F (CallMember v m args) w = call_member F v m args w"
| "exec F (CallGroup v g k args) w = call_group F v g k args w"

fun exec_all :: "funtab \<Rightarrow> stmt list \<Rightarrow> world \<Rightarrow> world" where
  "exec_all F [] w = w"
| "exec_all F (s # ss) w = exec_all F ss (snd (exec F s w))"

text \<open>
  \<^verbatim>\<open>b.m(a1).m(a2)...m(aN)\<close>: each call is made on the view the previous one returned. The
  result is \<open>None\<close> when a call gave a finalize result instead of a view: the members of
  such a value are not part of this model.
\<close>

fun call_repeatedly :: "funtab \<Rightarrow> string \<Rightarrow> jsval list list \<Rightarrow> view \<Rightarrow> world
    \<Rightarrow> ((error + view) \<times> world) option" where
  "call_repeatedly F m [] v w = Some (Inr v, w)"
| "call_repeatedly F m (args # rest) v w =
     (case call_member F v m args w of
        (Inl e, w') \<Rightarrow> Some (Inl e, w')
      | (Inr (View v'), w') \<Rightarrow> call_repeatedly F m rest v' w'
      | (Inr (Value x), w') \<Rightarrow> None)"

text \<open>The store after a call of a method or group member that returned.\<close>

definition after_call :: "view \<Rightarrow> string \<Rightarrow> bool \<Rightarrow> obj \<Rightarrow> world \<Rightarrow> world" where
  "after_call v prop record_it inst' w =
     \<lparr>instances = (instances w)(target v := inst'),
      callsets = (if record_it then (callsets w)(called v := insert prop (callsets w (called v)))
                  else callsets w),
      fresh = Suc (fresh w)\<rparr>"

section \<open>The member kinds as the specification words them\<close>

text \<open>
  The specification calls a member a group namespace when it is a non-null structured
  value whose own members are all callables, and a plain data property when it is
  neither callable nor a group namespace. These two definitions follow the
  specification's words, to be compared with the tests of lines 32 and 46.
\<close>

definition spec_group_namespace :: "jsval \<Rightarrow> bool" where
  "spec_group_namespace value =
     (case value of
        Obj kvs \<Rightarrow> list_all (\<lambda>kv. is_function (snd kv)) kvs
      | Arr xs \<Rightarrow> list_all is_function xs
      | other \<Rightarrow> False)"

definition spec_plain_data :: "jsval \<Rightarrow> bool" where
  "spec_plain_data value = (\<not> is_function value \<and> \<not> spec_group_namespace value)"

section \<open>The builders of the tests and examples\<close>

text \<open>
  Method bodies of the classes in \<^verbatim>\<open>src/tests/createBuilder.test.ts\<close> and of the pizza
  builder of the package's basic usage example. A class method is only ever called by
  the wrapper on the instance (lines 28 and 40), and the arrow functions of a group take
  \<^verbatim>\<open>this\<close> from the constructor, so the bodies do not look at their receiver.
  \<^verbatim>\<open>return this\<close> is modelled by returning the instance as a value; the wrapper drops it.
\<close>

definition arg :: "jsval list \<Rightarrow> nat \<Rightarrow> jsval" where
  "arg args i = (if i < length args then args ! i else Undefined)"

definition push :: "jsval \<Rightarrow> jsval \<Rightarrow> jsval" where
  "push a x = (case a of Arr xs \<Rightarrow> Arr (xs @ [x]) | other \<Rightarrow> other)"

definition set_member :: "jsval \<Rightarrow> string \<Rightarrow> jsval \<Rightarrow> jsval" where
  "set_member a k x = (case a of Obj kvs \<Rightarrow> Obj (assign kvs (SKey k) x) | other \<Rightarrow> other)"

text \<open>
  \<^verbatim>\<open>class TestBuilder { private _value = ''; withValue(value: string) { this._value = value;
  return this; } build() { return `Hello, ${this._value}!`; } }\<close>
  (the field is declared a string; other values are not rendered here).
\<close>

definition withValue_body :: body where
  "withValue_body this args inst =
     (let inst' = assign inst (SKey ''_value'') (arg args 0) in (Return (Obj inst'), inst'))"

definition hello_build_body :: body where
  "hello_build_body this args inst =
     (case lookup inst (SKey ''_value'') of
        Str s \<Rightarrow> (Return (Str (''Hello, '' @ s @ ''!'')), inst)
      | other \<Rightarrow> (Return Undefined, inst))"

definition hello_instance :: obj where
  "hello_instance =
     [(SKey ''_value'', Str []), (SKey ''withValue'', Fn 0), (SKey ''build'', Fn 1)]"

definition HelloBuilder :: cls where
  "HelloBuilder args = Inr hello_instance"

text \<open>\<^verbatim>\<open>class RunBuilder { run() { return 'done'; } }\<close>\<close>

definition run_body :: body where
  "run_body this args inst = (Return (Str ''done''), inst)"

definition run_instance :: obj where
  "run_instance = [(SKey ''run'', Fn 2)]"

definition RunBuilder :: cls where
  "RunBuilder args = Inr run_instance"

text \<open>
  The pizza builder: fields \<^verbatim>\<open>_size = 'medium'\<close>, \<^verbatim>\<open>_toppings = []\<close> and
  \<^verbatim>\<open>options = { glutenFree: false, extraCheese: false }\<close>, the one-time method
  \<^verbatim>\<open>withSize\<close>, the repeatable method \<^verbatim>\<open>addTopping\<close>, the group
  \<^verbatim>\<open>preferences = { glutenFree: () => ..., extraCheese: () => ... }\<close> and \<^verbatim>\<open>build()\<close>,
  which returns \<^verbatim>\<open>{ size, toppings, options }\<close>.
\<close>

definition withSize_body :: body where
  "withSize_body this args inst =
     (let inst' = assign inst (SKey ''_size'') (arg args 0) in (Return (Obj inst'), inst'))"

definition addTopping_body :: body where
  "addTopping_body this args inst =
     (let inst' = assign inst (SKey ''_toppings'')
                    (push (lookup inst (SKey ''_toppings'')) (arg args 0))
      in (Return (Obj inst'), inst'))"

definition glutenFree_body :: body where
  "glutenFree_body this args inst =
     (let inst' = assign inst (SKey ''options'')
                    (set_member (lookup inst (SKey ''options'')) ''glutenFree'' (Bool True))
      in (Return (Obj inst'), inst'))"

definition extraCheese_body :: body where
  "extraCheese_body this args inst =
     (let inst' = assign inst (SKey ''options'')
                    (set_member (lookup inst (SKey ''options'')) ''extraCheese'' (Bool True))
      in (Return (Obj inst'), inst'))"

definition pizza_build_body :: body where
  "pizza_build_body this args inst =
     (Return (Obj [(SKey ''size'', lookup inst (SKey ''_size'')),
                   (SKey ''toppings'', lookup inst (SKey ''_toppings'')),
                   (SKey ''options'', lookup inst (SKey ''options''))]), inst)"

definition pizza_options :: jsval where
  "pizza_options = Obj [(SKey ''glutenFree'', Bool False), (SKey ''extraCheese'', Bool False)]"

definition pizza_preferences :: jsval where
  "pizza_preferences = Obj [(SKey ''glutenFree'', Fn 5), (SKey ''extraCheese'', Fn 6)]"

definition pizza_instance :: obj where
  "pizza_instance =
     [(SKey ''_size'', Str ''medium''),
      (SKey ''_toppings'', Arr []),
      (SKey ''options'', pizza_options),
      (SKey ''preferences'', pizza_preferences),
      (SKey ''withSize'', Fn 3), (SKey ''addTopping'', Fn 4), (SKey ''build'', Fn 7)]"

definition PizzaBuilder :: cls where
  "PizzaBuilder args = Inr pizza_instance"

text \<open>
  A builder that is not in the repository, whose methods can throw and which has a
  symbol-keyed field:
  \<^verbatim>\<open>class ProbeBuilder { attempts = 0; [TAG] = 'probe';
    withPort(port) { this.attempts++; if (port < 0) throw 'bad port'; this.port = port; return this; }
    mode = { strict: () => { this.attempts++; throw 'unsupported'; }, lax: () => this };
    build() { return this.port; } }\<close>
  (\<^verbatim>\<open>attempts\<close> and \<^verbatim>\<open>port\<close> hold numbers).
\<close>

definition bump :: "jsval \<Rightarrow> jsval" where
  "bump x = (case x of Num n \<Rightarrow> Num (n + 1) | other \<Rightarrow> other)"

definition is_negative :: "jsval \<Rightarrow> bool" where
  "is_negative x = (case x of Num n \<Rightarrow> n < 0 | other \<Rightarrow> False)"

definition withPort_body :: body where
  "withPort_body this args inst =
     (let inst1 = assign inst (SKey ''attempts'') (bump (lookup inst (SKey ''attempts'')))
      in if is_negative (arg args 0) then (Throw (Str ''bad port''), inst1)
         else (let inst2 = assign inst1 (SKey ''port'') (arg args 0)
               in (Return (Obj inst2), inst2)))"

definition strict_body :: body where
  "strict_body this args inst =
     (let inst1 = assign inst (SKey ''attempts'') (bump (lookup inst (SKey ''attempts'')))
      in (Throw (Str ''unsupported''), inst1))"

definition lax_body :: body where
  "lax_body this args inst = (Return (Obj inst), inst)"

definition probe_build_body :: body where
  "probe_build_body this args inst = (Return (lookup inst (SKey ''port'')), inst)"

definition probe_mode :: jsval where
  "probe_mode = Obj [(SKey ''strict'', Fn 9), (SKey ''lax'', Fn 10)]"

definition probe_instance :: obj where
  "probe_instance =
     [(SKey ''attempts'', Num 0), (Sym 0, Str ''probe''), (SKey ''mode'', probe_mode),
      (SKey ''withPort'', Fn 8), (SKey ''build'', Fn 11)]"

definition ProbeBuilder :: cls where
  "ProbeBuilder args = Inr probe_instance"

text \<open>The table of all these bodies; an index outside it is a function that does nothing.\<close>

definition example_bodies :: "body list" where
  "example_bodies =
     [withValue_body, hello_build_body, run_body, withSize_body, addTopping_body,
      glutenFree_body, extraCheese_body, pizza_build_body,
      withPort_body, strict_body, lax_body, probe_build_body]"

definition example_F :: funtab where
  "example_F n = (if n < length example_bodies then example_bodies ! n
     else (\<lambda>this args inst. (Return Undefined, inst)))"

text \<open>The empty store, and the view and store that the first \<^verbatim>\<open>createBuilder\<close> in it gives.\<close>

definition world0 :: world where
  "world0 = \<lparr>instances = (\<lambda>a. []), callsets = (\<lambda>a. {}), fresh = 0\<rparr>"

definition start_view :: "string \<Rightarrow> view" where
  "start_view b = \<lparr>view_id = 2, target = 0, called = 1, buildMethod = b\<rparr>"

definition start_world :: "obj \<Rightarrow> world" where
  "start_world inst =
     \<lparr>instances = (\<lambda>a. [])(0 := inst), callsets = (\<lambda>a. {})(Suc 0 := {}), fresh = 3\<rparr>"

text \<open>
  The store of the pizza chain after \<^verbatim>\<open>withSize('large')\<close> on the first view.
\<close>

definition pizza_sized :: world where
  "pizza_sized =
     snd (call_member example_F (start_view ''build'') ''withSize'' [Str ''large'']
            (start_world pizza_instance))"

text \<open>
  The function that reading \<^verbatim>\<open>withSize\<close> on the first view of the pizza chain returns
  (\<^verbatim>\<open>const f = pizza.withSize\<close>), and the store after \<^verbatim>\<open>f('large'); f('small')\<close>.
\<close>

definition pizza_withSize_kept :: closure where
  "pizza_withSize_kept = MethodFn (start_view ''build'') ''withSize'' (Fn 3) True"

definition pizza_resized :: world where
  "pizza_resized = snd (apply_closure example_F pizza_withSize_kept [Str ''small''] pizza_sized)"


section \<open>Evaluation rules\<close>

named_theorems ev

lemmas [ev] = createBuilder_def new_Proxy_def call_member_def call_group_def handler_get_def
  lookup_def startsWith_def Let_def call_value_def store_instance_def called_add_def
  inner_call_def for_in_keys_def member_def same_chain_def
  already_called_def already_used_def apostrophe_def
  example_F_def example_bodies_def
  withValue_body_def hello_build_body_def run_body_def withSize_body_def addTopping_body_def
  glutenFree_body_def extraCheese_body_def pizza_build_body_def withPort_body_def strict_body_def
  lax_body_def probe_build_body_def bump_def is_negative_def arg_def push_def set_member_def
  world0_def start_view_def start_world_def

section \<open>Basic facts\<close>

lemma get_sym: "handler_get w v (Sym s) = Inr (Plain Undefined)"
  by (simp add: handler_get_def)

lemma get_build: "handler_get w v (SKey (buildMethod v)) = Inr (Closure (BuildFn v (buildMethod v)))"
  by (simp add: handler_get_def)

lemma get_method:
  assumes "p \<noteq> buildMethod v" "is_function (lookup (instances w (target v)) (SKey p))"
    "\<not> (startsWith p ''with'' \<and> p \<in> callsets w (called v))"
  shows "handler_get w v (SKey p) =
     Inr (Closure (MethodFn v p (lookup (instances w (target v)) (SKey p)) (startsWith p ''with'')))"
  using assms by (auto simp add: handler_get_def Let_def)

lemma get_called:
  assumes "p \<noteq> buildMethod v" "is_function (lookup (instances w (target v)) (SKey p))"
    "startsWith p ''with''" "p \<in> callsets w (called v)"
  shows "handler_get w v (SKey p) = Inl (Error (already_called p))"
  using assms by (simp add: handler_get_def Let_def)

lemma get_group:
  assumes "p \<noteq> buildMethod v" "is_object (lookup (instances w (target v)) (SKey p))"
    "p \<notin> callsets w (called v)"
  shows "handler_get w v (SKey p) =
     Inr (GroupProxy (map (\<lambda>key. (key, GroupFn v p (lookup (instances w (target v)) (SKey p)) key))
        (for_in_keys (lookup (instances w (target v)) (SKey p)))))"
  using assms by (cases "lookup (instances w (target v)) (SKey p)") (simp_all add: handler_get_def Let_def)

lemma get_used:
  assumes "p \<noteq> buildMethod v" "is_object (lookup (instances w (target v)) (SKey p))"
    "p \<in> callsets w (called v)"
  shows "handler_get w v (SKey p) = Inl (Error (already_used p))"
  using assms by (cases "lookup (instances w (target v)) (SKey p)") (simp_all add: handler_get_def Let_def)

lemma get_plain:
  assumes "p \<noteq> buildMethod v" "\<not> is_function (lookup (instances w (target v)) (SKey p))"
    "\<not> is_object (lookup (instances w (target v)) (SKey p))"
  shows "handler_get w v (SKey p) = Inr (Plain (lookup (instances w (target v)) (SKey p)))"
  using assms by (simp add: handler_get_def Let_def)

lemma finalize_eq:
  "call_member F v (buildMethod v) args w =
     (case call_value F (lookup (instances w (target v)) (SKey (buildMethod v))) ThisInstance []
             (instances w (target v)) of
        (Inl e, inst') \<Rightarrow> (Inl e, store_instance (target v) inst' w)
      | (Inr r, inst') \<Rightarrow> (Inr (Value r), store_instance (target v) inst' w))"
  by (simp add: call_member_def get_build)

lemma call_value_Fn_Return:
  "F n this args inst = (Return r, inst') \<Longrightarrow> call_value F (Fn n) this args inst = (Inr r, inst')"
  by (simp add: call_value_def)

lemma call_value_Fn_Throw:
  "F n this args inst = (Throw ex, inst') \<Longrightarrow> call_value F (Fn n) this args inst = (Inl (Thrown ex), inst')"
  by (simp add: call_value_def)

lemma call_value_Inr_is_function:
  "call_value F f this args inst = (Inr r, inst') \<Longrightarrow> is_function f"
  by (cases f) (simp_all add: call_value_def)

lemma call_value_not_Error: "fst (call_value F f this args inst) \<noteq> Inl (Error msg)"
  by (cases f) (auto simp add: call_value_def split: prod.splits completion.splits)

lemma apply_MethodFn_Inr:
  assumes "call_value F value ThisInstance args (instances w (target v)) = (Inr r, inst')"
  shows "apply_closure F (MethodFn v prop value one) args w =
           (Inr (View (v\<lparr>view_id := fresh w\<rparr>)), after_call v prop one inst' w)"
  using assms by (simp add: new_Proxy_def store_instance_def called_add_def after_call_def)

lemma apply_MethodFn_Inl:
  assumes "call_value F value ThisInstance args (instances w (target v)) = (Inl e, inst')"
  shows "apply_closure F (MethodFn v prop value one) args w = (Inl e, store_instance (target v) inst' w)"
  using assms by simp

lemma apply_GroupFn_Inr:
  assumes "call_value F (member value key) (ThisValue value) args (instances w (target v)) = (Inr r, inst')"
  shows "apply_closure F (GroupFn v prop value key) args w =
           (Inr (View (v\<lparr>view_id := fresh w\<rparr>)), after_call v prop True inst' w)"
  using assms by (simp add: new_Proxy_def store_instance_def called_add_def after_call_def)

lemma apply_GroupFn_Inl:
  assumes "call_value F (member value key) (ThisValue value) args (instances w (target v)) = (Inl e, inst')"
  shows "apply_closure F (GroupFn v prop value key) args w = (Inl e, store_instance (target v) inst' w)"
  using assms by simp

lemma callsets_apply_closure:
  "callsets w a \<subseteq> callsets (snd (apply_closure F c args w)) a"
  by (cases c)
     (auto simp add: new_Proxy_def store_instance_def called_add_def Let_def
           split: prod.splits sum.splits)

lemma callsets_call_member: "callsets w a \<subseteq> callsets (snd (call_member F v m args w)) a"
  by (auto simp add: call_member_def split: sum.splits wval.splits
        intro: subsetD [OF callsets_apply_closure])

lemma callsets_call_group: "callsets w a \<subseteq> callsets (snd (call_group F v g k args w)) a"
  by (auto simp add: call_group_def split: sum.splits wval.splits option.splits
        intro: subsetD [OF callsets_apply_closure])

lemma callsets_exec: "callsets w a \<subseteq> callsets (snd (exec F s w)) a"
  by (cases s) (simp_all add: callsets_call_member callsets_call_group)

lemma callsets_exec_all: "callsets w a \<subseteq> callsets (exec_all F ss w) a"
proof (induction ss arbitrary: w)
  case Nil
  show ?case by simp
next
  case (Cons s ss)
  have "callsets w a \<subseteq> callsets (snd (exec F s w)) a" by (rule callsets_exec)
  also have "\<dots> \<subseteq> callsets (exec_all F ss (snd (exec F s w))) a" by (rule Cons.IH)
  finally show ?case by simp
qed

lemma call_member_returns:
  assumes "m \<noteq> buildMethod v"
    and "\<not> (startsWith m ''with'' \<and> m \<in> callsets w (called v))"
    and "inner_call F (instances w (target v)) m args = (Inr r, inst')"
  shows "call_member F v m args w =
           (Inr (View (v\<lparr>view_id := fresh w\<rparr>)), after_call v m (startsWith m ''with'') inst' w)"
proof -
  let ?val = "lookup (instances w (target v)) (SKey m)"
  have cv: "call_value F ?val ThisInstance args (instances w (target v)) = (Inr r, inst')"
    using assms(3) by (simp add: inner_call_def)
  then have "is_function ?val" by (rule call_value_Inr_is_function)
  then have "handler_get w v (SKey m) = Inr (Closure (MethodFn v m ?val (startsWith m ''with'')))"
    using assms(1,2) by (intro get_method)
  then show ?thesis
    by (simp add: call_member_def apply_MethodFn_Inr [OF cv] del: apply_closure.simps)
qed

lemma call_member_throws:
  assumes "m \<noteq> buildMethod v"
    and "\<not> (startsWith m ''with'' \<and> m \<in> callsets w (called v))"
    and "is_function (lookup (instances w (target v)) (SKey m))"
    and "inner_call F (instances w (target v)) m args = (Inl e, inst')"
  shows "call_member F v m args w = (Inl e, store_instance (target v) inst' w)"
proof -
  let ?val = "lookup (instances w (target v)) (SKey m)"
  have cv: "call_value F ?val ThisInstance args (instances w (target v)) = (Inl e, inst')"
    using assms(4) by (simp add: inner_call_def)
  have "handler_get w v (SKey m) = Inr (Closure (MethodFn v m ?val (startsWith m ''with'')))"
    using assms(1,2,3) by (intro get_method)
  then show ?thesis
    by (simp add: call_member_def apply_MethodFn_Inl [OF cv] del: apply_closure.simps)
qed

lemma call_member_rejected:
  assumes "m \<noteq> buildMethod v" "startsWith m ''with''" "m \<in> callsets w (called v)"
    and "is_function (lookup (instances w (target v)) (SKey m))"
  shows "call_member F v m args w = (Inl (Error (already_called m)), w)"
  using assms by (simp add: call_member_def get_called)

lemma member_keys: "member value k \<noteq> Undefined \<Longrightarrow> k \<in> set (for_in_keys value)"
  by (auto simp add: member_def for_in_keys_def split: option.splits dest: map_of_SomeD
      intro: rev_image_eqI)

lemma map_of_group_proxy:
  "k \<in> set ks \<Longrightarrow> map_of (map (\<lambda>key. (key, f key)) ks) k = Some (f k)"
  by (induction ks) auto

lemma call_group_returns:
  assumes "g \<noteq> buildMethod v" "g \<notin> callsets w (called v)"
    and "lookup (instances w (target v)) (SKey g) = value" "is_object value"
    and "call_value F (member value k) (ThisValue value) args (instances w (target v)) = (Inr r, inst')"
  shows "call_group F v g k args w =
           (Inr (View (v\<lparr>view_id := fresh w\<rparr>)), after_call v g True inst' w)"
proof -
  have "is_function (member value k)" using assms(5) by (rule call_value_Inr_is_function)
  then have "member value k \<noteq> Undefined" by auto
  then have k: "k \<in> set (for_in_keys value)" by (rule member_keys)
  have "handler_get w v (SKey g) =
      Inr (GroupProxy (map (\<lambda>key. (key, GroupFn v g value key)) (for_in_keys value)))"
    using get_group [of g v w] assms(1-4) by simp
  then show ?thesis
    by (simp add: call_group_def map_of_group_proxy [OF k] apply_GroupFn_Inr [OF assms(5)] del: apply_closure.simps)
qed

lemma call_group_throws:
  assumes "g \<noteq> buildMethod v" "g \<notin> callsets w (called v)"
    and "lookup (instances w (target v)) (SKey g) = value" "is_object value"
    and "is_function (member value k)"
    and "call_value F (member value k) (ThisValue value) args (instances w (target v)) = (Inl e, inst')"
  shows "call_group F v g k args w = (Inl e, store_instance (target v) inst' w)"
proof -
  have "member value k \<noteq> Undefined" using assms(5) by auto
  then have k: "k \<in> set (for_in_keys value)" by (rule member_keys)
  have "handler_get w v (SKey g) =
      Inr (GroupProxy (map (\<lambda>key. (key, GroupFn v g value key)) (for_in_keys value)))"
    using get_group [of g v w] assms(1-4) by simp
  then show ?thesis
    by (simp add: call_group_def map_of_group_proxy [OF k] apply_GroupFn_Inl [OF assms(6)] del: apply_closure.simps)
qed

lemma call_group_rejected:
  assumes "g \<noteq> buildMethod v" "g \<in> callsets w (called v)"
    and "is_object (lookup (instances w (target v)) (SKey g))"
  shows "call_group F v g k args w = (Inl (Error (already_used g)), w)"
  using assms by (simp add: call_group_def get_used)

lemma finalize_after:
  "call_member F v (buildMethod v) args w =
     (case inner_call F (instances w (target v)) (buildMethod v) [] of
        (Inl e, inst') \<Rightarrow> (Inl e, store_instance (target v) inst' w)
      | (Inr r, inst') \<Rightarrow> (Inr (Value r), store_instance (target v) inst' w))"
  by (simp add: finalize_eq inner_call_def)

lemma apply_closure_Inr_view:
  assumes "apply_closure F c args w = (Inr r, w')" "c = MethodFn v p val one \<or> c = GroupFn v p val key"
  shows "r = View (v\<lparr>view_id := fresh w\<rparr>) \<and> fresh w' = Suc (fresh w)
         \<and> ((one \<or> c = GroupFn v p val key) \<longrightarrow> p \<in> callsets w' (called v))"
  using assms
  by (auto simp add: new_Proxy_def store_instance_def called_add_def Let_def
        split: prod.splits sum.splits if_splits)

lemma call_member_Inr_view:
  assumes "call_member F v m args w = (Inr r, w')" "m \<noteq> buildMethod v"
  shows "r = View (v\<lparr>view_id := fresh w\<rparr>) \<and> fresh w' = Suc (fresh w)
         \<and> (startsWith m ''with'' \<longrightarrow> m \<in> callsets w' (called v))"
proof -
  let ?val = "lookup (instances w (target v)) (SKey m)"
  from assms obtain c where g: "handler_get w v (SKey m) = Inr (Closure c)"
    and a: "apply_closure F c args w = (Inr r, w')"
    by (auto simp add: call_member_def split: sum.splits wval.splits)
  from g assms(2) have c: "c = MethodFn v m ?val (startsWith m ''with'')"
    by (auto simp add: handler_get_def Let_def split: if_splits)
  show ?thesis
    using apply_closure_Inr_view [OF a, where v = v and p = m and val = ?val] c by simp
qed

lemma call_group_Inr_view:
  assumes "call_group F v g k args w = (Inr r, w')"
  shows "r = View (v\<lparr>view_id := fresh w\<rparr>) \<and> fresh w' = Suc (fresh w)
         \<and> g \<in> callsets w' (called v)"
proof -
  let ?val = "lookup (instances w (target v)) (SKey g)"
  from assms obtain ms c where g: "handler_get w v (SKey g) = Inr (GroupProxy ms)"
    and m: "map_of ms k = Some c"
    and a: "apply_closure F c args w = (Inr r, w')"
    by (auto simp add: call_group_def split: sum.splits wval.splits option.splits)
  from g have "ms = map (\<lambda>key. (key, GroupFn v g ?val key)) (for_in_keys ?val)"
    by (auto simp add: handler_get_def Let_def split: if_splits)
  with m have c: "c = GroupFn v g ?val k"
    by (auto dest: map_of_SomeD)
  show ?thesis
    using apply_closure_Inr_view [OF a, where v = v and p = g and val = ?val and key = k] c by simp
qed

lemma createBuilder_Inr:
  assumes "c cargs = Inr inst"
  shows "createBuilder c b cargs w =
     (Inr \<lparr>view_id = Suc (Suc (fresh w)), target = fresh w, called = Suc (fresh w), buildMethod = b\<rparr>,
      \<lparr>instances = (instances w)(fresh w := inst),
       callsets = (callsets w)(Suc (fresh w) := {}),
       fresh = Suc (Suc (Suc (fresh w)))\<rparr>)"
  using assms by (simp add: createBuilder_def new_Proxy_def)

lemma call_repeatedly_inner:
  assumes "\<not> startsWith m ''with''" "m \<noteq> buildMethod v"
    and "inner_calls F m argss (instances w (target v)) = (None, inst')"
  shows "\<exists>v' w'. call_repeatedly F m argss v w = Some (Inr v', w')
           \<and> same_chain v v'
           \<and> instances w' (target v) = inst'
           \<and> callsets w' = callsets w
           \<and> fresh w' = fresh w + length argss"
  using assms
proof (induction argss arbitrary: v w)
  case Nil
  then show ?case by (simp add: same_chain_def)
next
  case (Cons args rest)
  from Cons.prems(3) obtain r inst1 where
    ic: "inner_call F (instances w (target v)) m args = (Inr r, inst1)"
    and rest: "inner_calls F m rest inst1 = (None, inst')"
    by (auto split: prod.splits sum.splits)
  let ?v1 = "v\<lparr>view_id := fresh w\<rparr>"
  let ?w1 = "after_call v m False inst1 w"
  have step: "call_member F v m args w = (Inr (View ?v1), ?w1)"
    using call_member_returns [OF Cons.prems(2) _ ic] Cons.prems(1) by simp
  have "\<exists>v' w'. call_repeatedly F m rest ?v1 ?w1 = Some (Inr v', w')
           \<and> same_chain ?v1 v'
           \<and> instances w' (target ?v1) = inst'
           \<and> callsets w' = callsets ?w1
           \<and> fresh w' = fresh ?w1 + length rest"
    using Cons.prems(1,2) rest by (intro Cons.IH) (simp_all add: after_call_def)
  then obtain v' w' where "call_repeatedly F m rest ?v1 ?w1 = Some (Inr v', w')"
    and "same_chain ?v1 v'" and "instances w' (target ?v1) = inst'"
    and "callsets w' = callsets ?w1" and "fresh w' = fresh ?w1 + length rest"
    by blast
  then show ?case
    using step by (simp add: after_call_def same_chain_def)
qed

lemma finalize_fst:
  "fst (call_member F v (buildMethod v) args w) =
     map_sum id Value (fst (inner_call F (instances w (target v)) (buildMethod v) []))"
  by (simp add: finalize_after split: prod.splits sum.splits)

lemma finalize_snd:
  "snd (call_member F v (buildMethod v) args w) =
     store_instance (target v) (snd (inner_call F (instances w (target v)) (buildMethod v) [])) w"
  by (simp add: finalize_after split: prod.splits sum.splits)

lemma finalize_not_Error: "fst (call_member F v (buildMethod v) args w) \<noteq> Inl (Error msg)"
  using call_value_not_Error [of F "lookup (instances w (target v)) (SKey (buildMethod v))"
      ThisInstance "[]" "instances w (target v)" msg]
  by (auto simp add: finalize_fst inner_call_def map_sum_def split: sum.splits)

lemma finalize_after_create:
  assumes "c cargs = Inr inst"
  shows "\<exists>v0 w0. createBuilder c b cargs w = (Inr v0, w0)
           \<and> fst (call_member F v0 b [] w0) = map_sum id Value (fst (inner_call F inst b []))"
proof -
  let ?v0 = "\<lparr>view_id = Suc (Suc (fresh w)), target = fresh w, called = Suc (fresh w), buildMethod = b\<rparr>"
  let ?w0 = "\<lparr>instances = (instances w)(fresh w := inst),
       callsets = (callsets w)(Suc (fresh w) := {}),
       fresh = Suc (Suc (Suc (fresh w)))\<rparr>"
  have "createBuilder c b cargs w = (Inr ?v0, ?w0)"
    using assms by (rule createBuilder_Inr)
  moreover have "fst (call_member F ?v0 b [] ?w0) = map_sum id Value (fst (inner_call F inst b []))"
    using finalize_fst [of F ?v0 "[]" ?w0] by simp
  ultimately show ?thesis by blast
qed

lemma same_chain_refl: "same_chain v v"
  by (simp add: same_chain_def)

lemma same_chain_new_id: "same_chain v (v\<lparr>view_id := n\<rparr>)"
  by (simp add: same_chain_def)

lemma finalize_returns:
  assumes "inner_call F (instances w (target v)) (buildMethod v) [] = (Inr res, inst2)"
  shows "fst (call_member F v (buildMethod v) args w) = Inr (Value res)"
  using assms by (simp add: finalize_fst)

lemma one_time_once:
  assumes "startsWith m ''with''" and "m \<noteq> buildMethod v" and "m \<notin> callsets w (called v)"
    and "inner_call F (instances w (target v)) m args = (Inr r, inst1)"
    and "inner_call F inst1 (buildMethod v) [] = (Inr res, inst2)"
  shows "\<exists>v1 w1. call_member F v m args w = (Inr (View v1), w1)
           \<and> same_chain v v1
           \<and> instances w1 (target v) = inst1
           \<and> fst (call_member F v1 (buildMethod v) [] w1) = Inr (Value res)"
proof -
  let ?v1 = "v\<lparr>view_id := fresh w\<rparr>"
  let ?w1 = "after_call v m (startsWith m ''with'') inst1 w"
  have step: "call_member F v m args w = (Inr (View ?v1), ?w1)"
    using assms(2,3,4) by (intro call_member_returns) simp_all
  have inst: "instances ?w1 (target v) = inst1"
    by (simp add: after_call_def)
  have "inner_call F (instances ?w1 (target ?v1)) (buildMethod ?v1) [] = (Inr res, inst2)"
    using assms(5) inst by simp
  then have "fst (call_member F ?v1 (buildMethod ?v1) [] ?w1) = Inr (Value res)"
    by (rule finalize_returns)
  then have "fst (call_member F ?v1 (buildMethod v) [] ?w1) = Inr (Value res)"
    by simp
  with step inst show ?thesis
    using same_chain_new_id by blast
qed

lemma hello_example:
  "\<exists>v0 w0 v1 w1. createBuilderFactory [ClassArg HelloBuilder] [] world0 = (Inr v0, w0)
     \<and> call_member example_F v0 ''withValue'' [Str ''World''] w0 = (Inr (View v1), w1)
     \<and> fst (call_member example_F v1 ''build'' [] w1) = Inr (Value (Str ''Hello, World!''))"
  by (simp add: ev HelloBuilder_def hello_instance_def)

lemma call_group_Inr_not_build:
  assumes "call_group F v g k args w = (Inr r, w')"
  shows "g \<noteq> buildMethod v"
  using assms
  by (auto simp add: call_group_def get_build split: sum.splits wval.splits option.splits)

lemma one_time_rejected_later:
  assumes "startsWith m ''with''" and "m \<noteq> buildMethod v"
    and "call_member F v m args w = (Inr r, w1)"
    and "same_chain v u"
    and "is_function (lookup (instances (exec_all F ss w1) (target u)) (SKey m))"
  shows "handler_get (exec_all F ss w1) u (SKey m) = Inl (Error (already_called m))"
    and "call_member F' u m args' (exec_all F ss w1) = (Inl (Error (already_called m)), exec_all F ss w1)"
proof -
  have "m \<in> callsets w1 (called v)"
    using call_member_Inr_view [OF assms(3,2)] assms(1) by simp
  then have "m \<in> callsets (exec_all F ss w1) (called v)"
    using callsets_exec_all [of w1 "called v" F ss] by blast
  then have in_u: "m \<in> callsets (exec_all F ss w1) (called u)"
    using assms(4) by (simp add: same_chain_def)
  have nb: "m \<noteq> buildMethod u"
    using assms(2,4) by (simp add: same_chain_def)
  show "handler_get (exec_all F ss w1) u (SKey m) = Inl (Error (already_called m))"
    using nb assms(5,1) in_u by (rule get_called)
  show "call_member F' u m args' (exec_all F ss w1) = (Inl (Error (already_called m)), exec_all F ss w1)"
    using nb assms(1) in_u assms(5) by (rule call_member_rejected)
qed

lemma group_rejected_later:
  assumes "call_group F v g k args w = (Inr r, w1)"
    and "same_chain v u"
    and "is_object (lookup (instances (exec_all F ss w1) (target u)) (SKey g))"
  shows "handler_get (exec_all F ss w1) u (SKey g) = Inl (Error (already_used g))"
    and "call_group F' u g j args' (exec_all F ss w1) = (Inl (Error (already_used g)), exec_all F ss w1)"
proof -
  have "g \<in> callsets w1 (called v)"
    using call_group_Inr_view [OF assms(1)] by simp
  then have "g \<in> callsets (exec_all F ss w1) (called v)"
    using callsets_exec_all [of w1 "called v" F ss] by blast
  then have in_u: "g \<in> callsets (exec_all F ss w1) (called u)"
    using assms(2) by (simp add: same_chain_def)
  have nb: "g \<noteq> buildMethod u"
    using call_group_Inr_not_build [OF assms(1)] assms(2) by (simp add: same_chain_def)
  show "handler_get (exec_all F ss w1) u (SKey g) = Inl (Error (already_used g))"
    using nb assms(3) in_u by (rule get_used)
  show "call_group F' u g j args' (exec_all F ss w1) = (Inl (Error (already_used g)), exec_all F ss w1)"
    using nb in_u assms(3) by (rule call_group_rejected)
qed

lemma already_called_text:
  "already_called m = ''Method '' @ [CHR 0x27] @ m @ [CHR 0x27] @ '' already called''"
  by (simp add: already_called_def apostrophe_def)

lemma already_used_text:
  "already_used g = ''Group '' @ [CHR 0x27] @ g @ [CHR 0x27] @ '' already used''"
  by (simp add: already_used_def apostrophe_def)

lemma group_once:
  assumes "g \<noteq> buildMethod v" and "g \<notin> callsets w (called v)"
    and "lookup (instances w (target v)) (SKey g) = gv" and "is_object gv"
    and "call_value F (member gv k) (ThisValue gv) args (instances w (target v)) = (Inr r, inst1)"
    and "inner_call F inst1 (buildMethod v) [] = (Inr res, inst2)"
  shows "call_group F v g k args w =
           (Inr (View (v\<lparr>view_id := fresh w\<rparr>)), after_call v g True inst1 w)"
    and "instances (after_call v g True inst1 w) (target v) = inst1"
    and "callsets (after_call v g True inst1 w) (called v) = insert g (callsets w (called v))"
    and "fst (call_member F (v\<lparr>view_id := fresh w\<rparr>) (buildMethod v) []
           (after_call v g True inst1 w)) = Inr (Value res)"
proof -
  let ?v1 = "v\<lparr>view_id := fresh w\<rparr>"
  let ?w1 = "after_call v g True inst1 w"
  show "call_group F v g k args w = (Inr (View ?v1), ?w1)"
    using assms(1-5) by (rule call_group_returns)
  show inst: "instances ?w1 (target v) = inst1"
    by (simp add: after_call_def)
  show "callsets ?w1 (called v) = insert g (callsets w (called v))"
    by (simp add: after_call_def)
  have "inner_call F (instances ?w1 (target ?v1)) (buildMethod ?v1) [] = (Inr res, inst2)"
    using assms(6) inst by simp
  then have "fst (call_member F ?v1 (buildMethod ?v1) [] ?w1) = Inr (Value res)"
    by (rule finalize_returns)
  then show "fst (call_member F ?v1 (buildMethod v) [] ?w1) = Inr (Value res)"
    by simp
qed

lemma createBuilder_fresh_state:
  assumes "c cargs = Inr inst"
  shows "\<exists>v0 w0. createBuilder c b cargs w = (Inr v0, w0)
           \<and> instances w0 (target v0) = inst
           \<and> callsets w0 (called v0) = {}
           \<and> buildMethod v0 = b
           \<and> view_id v0 < fresh w0
           \<and> fresh w \<le> target v0 \<and> fresh w \<le> called v0 \<and> fresh w \<le> view_id v0
           \<and> fresh w0 = fresh w + 3"
  using assms by (simp add: createBuilder_Inr)

lemma member_call_new_view:
  assumes "call_member F v m args w = (Inr r, w')" and "m \<noteq> buildMethod v"
  shows "\<exists>v'. r = View v' \<and> same_chain v v' \<and> view_id v' = fresh w \<and> fresh w' = Suc (fresh w)
           \<and> (view_id v = fresh w \<or> v' \<noteq> v)"
proof -
  let ?v' = "v\<lparr>view_id := fresh w\<rparr>"
  have "r = View ?v'" and "fresh w' = Suc (fresh w)"
    using call_member_Inr_view [OF assms] by simp_all
  moreover have "same_chain v ?v'" by (rule same_chain_new_id)
  moreover have "view_id ?v' = fresh w" by simp
  moreover have "view_id v = fresh w \<or> ?v' \<noteq> v"
    by (auto dest: arg_cong [where f = view_id])
  ultimately show ?thesis by blast
qed

lemma group_call_new_view:
  assumes "call_group F v g k args w = (Inr r, w')"
  shows "\<exists>v'. r = View v' \<and> same_chain v v' \<and> view_id v' = fresh w \<and> fresh w' = Suc (fresh w)
           \<and> (view_id v = fresh w \<or> v' \<noteq> v)"
proof -
  let ?v' = "v\<lparr>view_id := fresh w\<rparr>"
  have "r = View ?v'" and "fresh w' = Suc (fresh w)"
    using call_group_Inr_view [OF assms] by simp_all
  moreover have "same_chain v ?v'" by (rule same_chain_new_id)
  moreover have "view_id ?v' = fresh w" by simp
  moreover have "view_id v = fresh w \<or> ?v' \<noteq> v"
    by (auto dest: arg_cong [where f = view_id])
  ultimately show ?thesis by blast
qed

lemma run_example:
  "\<exists>v0 w0. createBuilderFactoryFor RunBuilder ''run'' [] world0 = (Inr v0, w0)
     \<and> call_member example_F v0 ''run'' [] w0 = (Inr (Value (Str ''done'')), w0)"
  by (simp add: ev RunBuilder_def run_instance_def createBuilderFactoryFor_def)

lemma factory_build_name:
  assumes "c cargs = Inr inst"
  shows "\<exists>v0 w0. createBuilder c b cargs w = (Inr v0, w0) \<and> buildMethod v0 = b
           \<and> fst (call_member F v0 b [] w0) = map_sum id Value (fst (inner_call F inst b []))"
proof -
  let ?v0 = "\<lparr>view_id = Suc (Suc (fresh w)), target = fresh w, called = Suc (fresh w), buildMethod = b\<rparr>"
  let ?w0 = "\<lparr>instances = (instances w)(fresh w := inst),
       callsets = (callsets w)(Suc (fresh w) := {}),
       fresh = Suc (Suc (Suc (fresh w)))\<rparr>"
  have "createBuilder c b cargs w = (Inr ?v0, ?w0)"
    using assms by (rule createBuilder_Inr)
  moreover have "fst (call_member F ?v0 b [] ?w0) = map_sum id Value (fst (inner_call F inst b []))"
    using finalize_fst [of F ?v0 "[]" ?w0] by simp
  moreover have "buildMethod ?v0 = b" by simp
  ultimately show ?thesis by blast
qed

lemma get_not_rejected:
  assumes "p \<notin> callsets w (called v)"
  shows "\<exists>x. handler_get w v (SKey p) = Inr x"
  using assms by (simp add: handler_get_def Let_def)

lemma method_throw:
  assumes "m \<noteq> buildMethod v"
    and "\<not> (startsWith m ''with'' \<and> m \<in> callsets w (called v))"
    and "lookup (instances w (target v)) (SKey m) = Fn n"
    and "F n ThisInstance args (instances w (target v)) = (Throw ex, inst')"
  shows "call_member F v m args w = (Inl (Thrown ex), store_instance (target v) inst' w)"
proof -
  have "inner_call F (instances w (target v)) m args = (Inl (Thrown ex), inst')"
    using assms(3,4) by (simp add: inner_call_def call_value_Fn_Throw)
  moreover have "is_function (lookup (instances w (target v)) (SKey m))"
    using assms(3) by simp
  ultimately show ?thesis
    using assms(1,2) by (intro call_member_throws)
qed

lemma group_throw:
  assumes "g \<noteq> buildMethod v" and "g \<notin> callsets w (called v)"
    and "lookup (instances w (target v)) (SKey g) = gv" and "is_object gv"
    and "member gv k = Fn n"
    and "F n (ThisValue gv) args (instances w (target v)) = (Throw ex, inst')"
  shows "call_group F v g k args w = (Inl (Thrown ex), store_instance (target v) inst' w)"
proof -
  have "call_value F (member gv k) (ThisValue gv) args (instances w (target v))
      = (Inl (Thrown ex), inst')"
    using assms(5,6) by (simp add: call_value_Fn_Throw)
  moreover have "is_function (member gv k)" using assms(5) by simp
  ultimately show ?thesis
    using assms(1-4) by (intro call_group_throws)
qed

section \<open>One-time methods\<close>

text \<open>
  C1. Let \<open>m\<close> be a one-time method (a function member whose name starts with
  \<^verbatim>\<open>with\<close> and is not the finalize name) that has not been called yet in the chain. If
  the inner method, run on the instance in the store, returns and leaves the instance
  \<open>inst1\<close>, and the inner finalize method returns \<open>res\<close> on \<open>inst1\<close>, then
  \<^verbatim>\<open>view.m(args)\<close> returns a view of the same chain, the instance in the store is now
  \<open>inst1\<close> (the method ran on the live instance), and finalize on the returned view
  gives \<open>res\<close>. In particular the builder of the first test, made by
  \<^verbatim>\<open>createBuilderFactory(TestBuilder)()\<close>, gives \<^verbatim>\<open>"Hello, World!"\<close> for
  \<^verbatim>\<open>withValue('World').build()\<close>.
\<close>

theorem one_time_method_once_then_finalize:
  "(\<forall>F v w m args r inst1 res inst2.
      startsWith m ''with'' \<and> m \<noteq> buildMethod v \<and> m \<notin> callsets w (called v)
      \<and> inner_call F (instances w (target v)) m args = (Inr r, inst1)
      \<and> inner_call F inst1 (buildMethod v) [] = (Inr res, inst2)
      \<longrightarrow> (\<exists>v1 w1. call_member F v m args w = (Inr (View v1), w1)
             \<and> same_chain v v1
             \<and> instances w1 (target v) = inst1
             \<and> fst (call_member F v1 (buildMethod v) [] w1) = Inr (Value res)))
   \<and> (\<exists>v0 w0 v1 w1. createBuilderFactory [ClassArg HelloBuilder] [] world0 = (Inr v0, w0)
        \<and> call_member example_F v0 ''withValue'' [Str ''World''] w0 = (Inr (View v1), w1)
        \<and> fst (call_member example_F v1 ''build'' [] w1) = Inr (Value (Str ''Hello, World!'')))"
proof (rule conjI)
  show "\<forall>F v w m args r inst1 res inst2.
      startsWith m ''with'' \<and> m \<noteq> buildMethod v \<and> m \<notin> callsets w (called v)
      \<and> inner_call F (instances w (target v)) m args = (Inr r, inst1)
      \<and> inner_call F inst1 (buildMethod v) [] = (Inr res, inst2)
      \<longrightarrow> (\<exists>v1 w1. call_member F v m args w = (Inr (View v1), w1)
             \<and> same_chain v v1
             \<and> instances w1 (target v) = inst1
             \<and> fst (call_member F v1 (buildMethod v) [] w1) = Inr (Value res))"
    by (intro allI impI, elim conjE, rule one_time_once; assumption)
next
  show "\<exists>v0 w0 v1 w1. createBuilderFactory [ClassArg HelloBuilder] [] world0 = (Inr v0, w0)
        \<and> call_member example_F v0 ''withValue'' [Str ''World''] w0 = (Inr (View v1), w1)
        \<and> fst (call_member example_F v1 ''build'' [] w1) = Inr (Value (Str ''Hello, World!''))"
    by (rule hello_example)
qed

text \<open>The hypotheses of C1 hold for \<^verbatim>\<open>withValue('World')\<close> on the builder of the first test.\<close>

theorem one_time_method_once_then_finalize_witness:
  "startsWith ''withValue'' ''with''
   \<and> ''withValue'' \<noteq> buildMethod (start_view ''build'')
   \<and> ''withValue'' \<notin> callsets (start_world hello_instance) (called (start_view ''build''))
   \<and> inner_call example_F (instances (start_world hello_instance) (target (start_view ''build'')))
        ''withValue'' [Str ''World'']
       = (Inr (Obj (assign hello_instance (SKey ''_value'') (Str ''World''))),
          assign hello_instance (SKey ''_value'') (Str ''World''))
   \<and> inner_call example_F (assign hello_instance (SKey ''_value'') (Str ''World'')) ''build'' []
       = (Inr (Str ''Hello, World!''), assign hello_instance (SKey ''_value'') (Str ''World''))
   \<and> (\<exists>v1 w1. call_member example_F (start_view ''build'') ''withValue'' [Str ''World'']
                 (start_world hello_instance) = (Inr (View v1), w1)
         \<and> same_chain (start_view ''build'') v1
         \<and> instances w1 (target (start_view ''build''))
             = assign hello_instance (SKey ''_value'') (Str ''World'')
         \<and> fst (call_member example_F v1 ''build'' [] w1) = Inr (Value (Str ''Hello, World!'')))"
proof -
  let ?v = "start_view ''build''" and ?w = "start_world hello_instance"
  let ?i1 = "assign hello_instance (SKey ''_value'') (Str ''World'')"
  have h1: "startsWith ''withValue'' ''with''" by (simp add: startsWith_def)
  have h2: "''withValue'' \<noteq> buildMethod ?v" by (simp add: start_view_def)
  have h3: "''withValue'' \<notin> callsets ?w (called ?v)" by (simp add: start_view_def start_world_def)
  have h4: "inner_call example_F (instances ?w (target ?v)) ''withValue'' [Str ''World'']
       = (Inr (Obj ?i1), ?i1)" by (simp add: ev HelloBuilder_def hello_instance_def)
  have h5: "inner_call example_F ?i1 (buildMethod ?v) [] = (Inr (Str ''Hello, World!''), ?i1)"
    by (simp add: ev HelloBuilder_def hello_instance_def)
  have b: "buildMethod ?v = ''build''" by (simp add: start_view_def)
  from one_time_method_once_then_finalize
  have "\<exists>v1 w1. call_member example_F ?v ''withValue'' [Str ''World''] ?w = (Inr (View v1), w1)
         \<and> same_chain ?v v1
         \<and> instances w1 (target ?v) = ?i1
         \<and> fst (call_member example_F v1 (buildMethod ?v) [] w1) = Inr (Value (Str ''Hello, World!''))"
    using h1 h2 h3 h4 h5 by blast
  then show ?thesis
    using h1 h2 h3 h4 h5 unfolding b by blast
qed

text \<open>
  C2, as stated, fails. The test of line 35 is made when the property is read, and the
  arrow function of lines 39-43 never looks at \<^verbatim>\<open>called\<close>. In the pizza chain, the
  function that one read of \<^verbatim>\<open>withSize\<close> returned is called with \<^verbatim>\<open>'large'\<close>, which
  records the name, and then with \<^verbatim>\<open>'small'\<close>: this second invocation of the one-time
  method raises nothing, returns a view, and the inner method runs again (the size is
  now \<^verbatim>\<open>'small'\<close>).
\<close>

theorem kept_one_time_function_counterexample:
  "startsWith ''withSize'' ''with''
   \<and> ''withSize'' \<noteq> buildMethod (start_view ''build'')
   \<and> handler_get (start_world pizza_instance) (start_view ''build'') (SKey ''withSize'')
       = Inr (Closure pizza_withSize_kept)
   \<and> apply_closure example_F pizza_withSize_kept [Str ''large''] (start_world pizza_instance)
       = (Inr (View ((start_view ''build'')\<lparr>view_id := 3\<rparr>)), pizza_sized)
   \<and> lookup (instances pizza_sized (target (start_view ''build''))) (SKey ''_size'') = Str ''large''
   \<and> ''withSize'' \<in> callsets pizza_sized (called (start_view ''build''))
   \<and> apply_closure example_F pizza_withSize_kept [Str ''small''] pizza_sized
       = (Inr (View ((start_view ''build'')\<lparr>view_id := 4\<rparr>)), pizza_resized)
   \<and> lookup (instances pizza_resized (target (start_view ''build''))) (SKey ''_size'') = Str ''small''"
  by (simp add: ev pizza_instance_def pizza_options_def pizza_preferences_def pizza_sized_def
      pizza_withSize_kept_def pizza_resized_def)

text \<open>
  C2, amended. Let \<open>m\<close> be a one-time method and let a call \<^verbatim>\<open>v.m(args)\<close> have returned. After
  any further calls \<open>ss\<close> in the chain, a call \<^verbatim>\<open>u.m(args')\<close> on any view \<open>u\<close> of the
  same chain, where \<open>m\<close> is still a function member, fails with the error whose message
  is \<^verbatim>\<open>Method '<m>' already called\<close>. The error comes from reading the property
  (\<open>handler_get\<close>), which happens before the arguments are looked at; the store is left
  as it was and the result does not depend on the table of method bodies, so the inner
  method is not run again.
\<close>

theorem one_time_method_second_call_rejected:
  assumes "startsWith m ''with''" and "m \<noteq> buildMethod v"
    and "call_member F v m args w = (Inr r, w1)"
    and "same_chain v u"
    and "is_function (lookup (instances (exec_all F ss w1) (target u)) (SKey m))"
  shows "handler_get (exec_all F ss w1) u (SKey m) = Inl (Error (already_called m))
       \<and> call_member F' u m args' (exec_all F ss w1)
           = (Inl (Error (already_called m)), exec_all F ss w1)
       \<and> already_called m = ''Method '' @ [CHR 0x27] @ m @ [CHR 0x27] @ '' already called''"
  using one_time_rejected_later [OF assms] already_called_text by blast

text \<open>
  The pizza chain: \<^verbatim>\<open>withSize('large')\<close>, then \<^verbatim>\<open>addTopping('pepperoni')\<close> on the view
  that gave, then \<^verbatim>\<open>withSize('small')\<close> on the next view.
\<close>

theorem one_time_method_second_call_rejected_witness:
  "startsWith ''withSize'' ''with''
   \<and> ''withSize'' \<noteq> buildMethod (start_view ''build'')
   \<and> call_member example_F (start_view ''build'') ''withSize'' [Str ''large'']
        (start_world pizza_instance)
       = (Inr (View ((start_view ''build'')\<lparr>view_id := 3\<rparr>)), pizza_sized)
   \<and> same_chain (start_view ''build'') ((start_view ''build'')\<lparr>view_id := 4\<rparr>)
   \<and> is_function (lookup (instances
         (exec_all example_F
            [CallMember ((start_view ''build'')\<lparr>view_id := 3\<rparr>) ''addTopping'' [Str ''pepperoni'']]
            pizza_sized)
         (target ((start_view ''build'')\<lparr>view_id := 4\<rparr>))) (SKey ''withSize''))
   \<and> call_member example_F ((start_view ''build'')\<lparr>view_id := 4\<rparr>) ''withSize'' [Str ''small'']
        (exec_all example_F
            [CallMember ((start_view ''build'')\<lparr>view_id := 3\<rparr>) ''addTopping'' [Str ''pepperoni'']]
            pizza_sized)
       = (Inl (Error ''Method 'withSize' already called''),
          exec_all example_F
            [CallMember ((start_view ''build'')\<lparr>view_id := 3\<rparr>) ''addTopping'' [Str ''pepperoni'']]
            pizza_sized)"
proof -
  let ?v = "start_view ''build''"
  let ?v1 = "(start_view ''build'')\<lparr>view_id := 3\<rparr>"
  let ?u = "(start_view ''build'')\<lparr>view_id := 4\<rparr>"
  let ?ss = "[CallMember ?v1 ''addTopping'' [Str ''pepperoni'']]"
  have h1: "startsWith ''withSize'' ''with''" by (simp add: startsWith_def)
  have h2: "''withSize'' \<noteq> buildMethod ?v" by (simp add: start_view_def)
  have h3: "call_member example_F ?v ''withSize'' [Str ''large''] (start_world pizza_instance)
       = (Inr (View ?v1), pizza_sized)" by (simp add: ev pizza_instance_def pizza_options_def pizza_preferences_def pizza_sized_def)
  have h4: "same_chain ?v ?u" by (simp add: same_chain_def)
  have h5: "is_function (lookup (instances (exec_all example_F ?ss pizza_sized) (target ?u))
       (SKey ''withSize''))" by (simp add: ev pizza_instance_def pizza_options_def pizza_preferences_def pizza_sized_def)
  have t: "already_called ''withSize'' = ''Method 'withSize' already called''"
    by (simp add: already_called_def apostrophe_def)
  from one_time_method_second_call_rejected [OF h1 h2 h3 h4 h5, of example_F "[Str ''small'']"]
  show ?thesis using h1 h2 h3 h4 h5 unfolding t by blast
qed

section \<open>Group namespaces\<close>

text \<open>
  C3. Let \<open>g\<close> name a non-null object member \<open>gv\<close> that is not the finalize name and
  is not yet in the Call-State, and let its member \<open>k\<close>, called with the group object
  as receiver, return and leave the instance \<open>inst1\<close>, on which the inner finalize
  method returns \<open>res\<close>. Then \<^verbatim>\<open>view.g.k(args)\<close> returns a view of the same chain, the
  instance in the store is \<open>inst1\<close>, the Call-State has gained exactly the group name
  \<open>g\<close> (not the member name \<open>k\<close>), and finalize on the returned view gives \<open>res\<close>.
  After any further calls, reading \<open>g\<close> through any view of the same chain, while \<open>g\<close>
  is still an object member, fails with the error whose message is
  \<^verbatim>\<open>Group '<g>' already used\<close>, whichever member \<open>j\<close> was going to be called.
\<close>

theorem group_used_once_then_rejected:
  assumes "g \<noteq> buildMethod v" and "g \<notin> callsets w (called v)"
    and "lookup (instances w (target v)) (SKey g) = gv" and "is_object gv"
    and "call_value F (member gv k) (ThisValue gv) args (instances w (target v)) = (Inr r, inst1)"
    and "inner_call F inst1 (buildMethod v) [] = (Inr res, inst2)"
  shows "\<exists>v1 w1. call_group F v g k args w = (Inr (View v1), w1)
           \<and> same_chain v v1
           \<and> instances w1 (target v) = inst1
           \<and> callsets w1 (called v) = insert g (callsets w (called v))
           \<and> fst (call_member F v1 (buildMethod v) [] w1) = Inr (Value res)
           \<and> (\<forall>ss u j args' F'.
                 same_chain v u
                 \<and> is_object (lookup (instances (exec_all F ss w1) (target u)) (SKey g))
                 \<longrightarrow> handler_get (exec_all F ss w1) u (SKey g) = Inl (Error (already_used g))
                     \<and> call_group F' u g j args' (exec_all F ss w1)
                         = (Inl (Error (already_used g)), exec_all F ss w1))
           \<and> already_used g = ''Group '' @ [CHR 0x27] @ g @ [CHR 0x27] @ '' already used''"
proof -
  let ?v1 = "v\<lparr>view_id := fresh w\<rparr>"
  let ?w1 = "after_call v g True inst1 w"
  note once = group_once [OF assms]
  have later: "\<forall>ss u j args' F'.
                 same_chain v u
                 \<and> is_object (lookup (instances (exec_all F ss ?w1) (target u)) (SKey g))
                 \<longrightarrow> handler_get (exec_all F ss ?w1) u (SKey g) = Inl (Error (already_used g))
                     \<and> call_group F' u g j args' (exec_all F ss ?w1)
                         = (Inl (Error (already_used g)), exec_all F ss ?w1)"
    using group_rejected_later [OF once(1)] by blast
  show ?thesis
    using once same_chain_new_id [of v "fresh w"] later already_used_text [of g]
    by (intro exI [of _ ?v1] exI [of _ ?w1] conjI)
qed

text \<open>
  The pizza chain: \<^verbatim>\<open>preferences.extraCheese()\<close>, then \<^verbatim>\<open>build()\<close>, and
  \<^verbatim>\<open>preferences.glutenFree()\<close> afterwards.
\<close>

theorem group_used_once_then_rejected_witness:
  "''preferences'' \<noteq> buildMethod (start_view ''build'')
   \<and> ''preferences'' \<notin> callsets (start_world pizza_instance) (called (start_view ''build''))
   \<and> lookup (instances (start_world pizza_instance) (target (start_view ''build'')))
        (SKey ''preferences'') = pizza_preferences
   \<and> is_object pizza_preferences
   \<and> (\<exists>v1 w1. call_group example_F (start_view ''build'') ''preferences'' ''extraCheese'' []
                 (start_world pizza_instance) = (Inr (View v1), w1)
         \<and> callsets w1 (called (start_view ''build'')) = {''preferences''}
         \<and> fst (call_member example_F v1 ''build'' [] w1)
             = Inr (Value (Obj [(SKey ''size'', Str ''medium''), (SKey ''toppings'', Arr []),
                 (SKey ''options'', Obj [(SKey ''glutenFree'', Bool False),
                                         (SKey ''extraCheese'', Bool True)])]))
         \<and> call_group example_F (start_view ''build'') ''preferences'' ''glutenFree'' [] w1
             = (Inl (Error ''Group 'preferences' already used''), w1))"
proof -
  let ?v = "start_view ''build''" and ?w = "start_world pizza_instance"
  let ?i1 = "assign pizza_instance (SKey ''options'')
               (Obj [(SKey ''glutenFree'', Bool False), (SKey ''extraCheese'', Bool True)])"
  let ?res = "Obj [(SKey ''size'', Str ''medium''), (SKey ''toppings'', Arr []),
                 (SKey ''options'', Obj [(SKey ''glutenFree'', Bool False),
                                         (SKey ''extraCheese'', Bool True)])]"
  have h1: "''preferences'' \<noteq> buildMethod ?v" by (simp add: start_view_def)
  have h2: "''preferences'' \<notin> callsets ?w (called ?v)" by (simp add: start_view_def start_world_def)
  have h3: "lookup (instances ?w (target ?v)) (SKey ''preferences'') = pizza_preferences"
    by (simp add: start_view_def start_world_def pizza_instance_def lookup_def)
  have h4: "is_object pizza_preferences" by (simp add: pizza_preferences_def)
  have h5: "call_value example_F (member pizza_preferences ''extraCheese'') (ThisValue pizza_preferences)
       [] (instances ?w (target ?v)) = (Inr (Obj ?i1), ?i1)" by (simp add: ev pizza_instance_def pizza_options_def pizza_preferences_def)
  have h6: "inner_call example_F ?i1 (buildMethod ?v) [] = (Inr ?res, ?i1)" by (simp add: ev pizza_instance_def pizza_options_def pizza_preferences_def)
  have b: "buildMethod ?v = ''build''" by (simp add: start_view_def)
  have t: "already_used ''preferences'' = ''Group 'preferences' already used''"
    by (simp add: already_used_def apostrophe_def)
  from group_used_once_then_rejected [OF h1 h2 h3 h4 h5 h6]
  obtain v1 w1 where c: "call_group example_F ?v ''preferences'' ''extraCheese'' [] ?w = (Inr (View v1), w1)"
    and i: "instances w1 (target ?v) = ?i1"
    and s: "callsets w1 (called ?v) = insert ''preferences'' (callsets ?w (called ?v))"
    and f: "fst (call_member example_F v1 (buildMethod ?v) [] w1) = Inr (Value ?res)"
    and l: "\<forall>ss u j args' F'.
                 same_chain ?v u
                 \<and> is_object (lookup (instances (exec_all example_F ss w1) (target u)) (SKey ''preferences''))
                 \<longrightarrow> handler_get (exec_all example_F ss w1) u (SKey ''preferences'') = Inl (Error (already_used ''preferences''))
                     \<and> call_group F' u ''preferences'' j args' (exec_all example_F ss w1)
                         = (Inl (Error (already_used ''preferences'')), exec_all example_F ss w1)"
    by blast
  have o: "is_object (lookup (instances (exec_all example_F [] w1) (target ?v)) (SKey ''preferences''))"
    using i by (simp add: ev pizza_instance_def pizza_options_def pizza_preferences_def)
  have "call_group example_F ?v ''preferences'' ''glutenFree'' [] (exec_all example_F [] w1)
           = (Inl (Error (already_used ''preferences'')), exec_all example_F [] w1)"
    using l o same_chain_refl by blast
  then have r: "call_group example_F ?v ''preferences'' ''glutenFree'' [] w1
           = (Inl (Error ''Group 'preferences' already used''), w1)"
    unfolding t by simp
  have s': "callsets w1 (called ?v) = {''preferences''}"
    using s by (simp add: start_view_def start_world_def)
  show ?thesis
    using h1 h2 h3 h4 c s' f r unfolding b by blast
qed

section \<open>Repeatable methods\<close>

text \<open>
  C4. Let \<open>m\<close> be a repeatable method (its name does not start with \<^verbatim>\<open>with\<close> and is
  not the finalize name), and let \<open>argss\<close> be any list of argument lists, of any length
  \<open>N \<ge> 0\<close>. If the N calls of the inner method, made directly on the inner builder in
  this order, all return and leave the instance \<open>inst'\<close>, then the chain
  \<^verbatim>\<open>view.m(a1)...m(aN)\<close> returns a view of the same chain, the instance in the store is
  \<open>inst'\<close>, the Call-State of every chain is what it was, and finalize on the returned
  view gives what the inner finalize method gives on \<open>inst'\<close>.
\<close>

theorem repeatable_method_any_number_of_times:
  assumes "\<not> startsWith m ''with''" and "m \<noteq> buildMethod v"
    and "inner_calls F m argss (instances w (target v)) = (None, inst')"
  shows "\<exists>v' w'. call_repeatedly F m argss v w = Some (Inr v', w')
           \<and> same_chain v v'
           \<and> instances w' (target v) = inst'
           \<and> callsets w' = callsets w
           \<and> fst (call_member F v' (buildMethod v) [] w')
               = map_sum id Value (fst (inner_call F inst' (buildMethod v) []))"
proof -
  from call_repeatedly_inner [OF assms]
  obtain v' w' where r: "call_repeatedly F m argss v w = Some (Inr v', w')"
    and s: "same_chain v v'" and i: "instances w' (target v) = inst'"
    and c: "callsets w' = callsets w"
    by blast
  have "fst (call_member F v' (buildMethod v') [] w')
         = map_sum id Value (fst (inner_call F (instances w' (target v')) (buildMethod v') []))"
    by (rule finalize_fst)
  then have "fst (call_member F v' (buildMethod v) [] w')
         = map_sum id Value (fst (inner_call F inst' (buildMethod v) []))"
    using s i by (simp add: same_chain_def)
  with r s i c show ?thesis by blast
qed

text \<open>The pizza chain \<^verbatim>\<open>addTopping('pepperoni').addTopping('mushrooms').build()\<close>.\<close>

theorem repeatable_method_any_number_of_times_witness:
  "\<not> startsWith ''addTopping'' ''with''
   \<and> ''addTopping'' \<noteq> buildMethod (start_view ''build'')
   \<and> inner_calls example_F ''addTopping'' [[Str ''pepperoni''], [Str ''mushrooms'']]
        (instances (start_world pizza_instance) (target (start_view ''build'')))
       = (None, assign pizza_instance (SKey ''_toppings'') (Arr [Str ''pepperoni'', Str ''mushrooms'']))
   \<and> (\<exists>v' w'. call_repeatedly example_F ''addTopping'' [[Str ''pepperoni''], [Str ''mushrooms'']]
                 (start_view ''build'') (start_world pizza_instance) = Some (Inr v', w')
         \<and> callsets w' = callsets (start_world pizza_instance)
         \<and> fst (call_member example_F v' ''build'' [] w')
             = Inr (Value (Obj [(SKey ''size'', Str ''medium''),
                 (SKey ''toppings'', Arr [Str ''pepperoni'', Str ''mushrooms'']),
                 (SKey ''options'', pizza_options)])))"
proof -
  let ?v = "start_view ''build''" and ?w = "start_world pizza_instance"
  let ?i2 = "assign pizza_instance (SKey ''_toppings'') (Arr [Str ''pepperoni'', Str ''mushrooms''])"
  have h1: "\<not> startsWith ''addTopping'' ''with''" by (simp add: startsWith_def)
  have h2: "''addTopping'' \<noteq> buildMethod ?v" by (simp add: start_view_def)
  have h3: "inner_calls example_F ''addTopping'' [[Str ''pepperoni''], [Str ''mushrooms'']]
        (instances ?w (target ?v)) = (None, ?i2)" by (simp add: ev pizza_instance_def pizza_options_def pizza_preferences_def)
  have b: "buildMethod ?v = ''build''" by (simp add: start_view_def)
  have f: "map_sum id Value (fst (inner_call example_F ?i2 ''build'' []))
       = Inr (Value (Obj [(SKey ''size'', Str ''medium''),
                 (SKey ''toppings'', Arr [Str ''pepperoni'', Str ''mushrooms'']),
                 (SKey ''options'', pizza_options)]))" by (simp add: ev pizza_instance_def pizza_options_def pizza_preferences_def)
  from repeatable_method_any_number_of_times [OF h1 h2 h3]
  show ?thesis using h1 h2 h3 unfolding b f by blast
qed

section \<open>The finalize method\<close>

text \<open>
  C5. In every store, whatever was called before, calling the finalize method on a view
  calls the inner builder's finalize method with no argument (the arguments given to the
  wrapper are dropped) and returns its result as it is, or the error it ends with. The
  store changes only by what the inner method did to the instance: the Call-State is
  not read and not changed. The wrapper raises no error of its own, the first time or
  when finalize is called again. On a freshly wrapped builder, finalize gives what the
  inner finalize method gives on the instance the constructor returned.
\<close>

theorem finalize_passes_through:
  "fst (call_member F v (buildMethod v) args w) =
     map_sum id Value (fst (inner_call F (instances w (target v)) (buildMethod v) []))
   \<and> snd (call_member F v (buildMethod v) args w) =
       store_instance (target v) (snd (inner_call F (instances w (target v)) (buildMethod v) [])) w
   \<and> callsets (snd (call_member F v (buildMethod v) args w)) = callsets w
   \<and> fst (call_member F v (buildMethod v) args w) \<noteq> Inl (Error msg)
   \<and> fst (call_member F v (buildMethod v) args' (snd (call_member F v (buildMethod v) args w)))
       \<noteq> Inl (Error msg)
   \<and> (c cargs = Inr inst \<longrightarrow>
        (\<exists>v0 w0. createBuilder c b cargs w = (Inr v0, w0)
           \<and> fst (call_member F v0 b [] w0) = map_sum id Value (fst (inner_call F inst b []))))"
proof (intro conjI impI)
  show "fst (call_member F v (buildMethod v) args w) =
     map_sum id Value (fst (inner_call F (instances w (target v)) (buildMethod v) []))"
    by (rule finalize_fst)
  show "snd (call_member F v (buildMethod v) args w) =
       store_instance (target v) (snd (inner_call F (instances w (target v)) (buildMethod v) [])) w"
    by (rule finalize_snd)
  show "callsets (snd (call_member F v (buildMethod v) args w)) = callsets w"
    by (simp add: finalize_snd store_instance_def)
  show "fst (call_member F v (buildMethod v) args w) \<noteq> Inl (Error msg)"
    by (rule finalize_not_Error)
  show "fst (call_member F v (buildMethod v) args' (snd (call_member F v (buildMethod v) args w)))
       \<noteq> Inl (Error msg)"
    by (rule finalize_not_Error)
  show "\<exists>v0 w0. createBuilder c b cargs w = (Inr v0, w0)
           \<and> fst (call_member F v0 b [] w0) = map_sum id Value (fst (inner_call F inst b []))"
    if "c cargs = Inr inst"
    using that by (rule finalize_after_create)
qed

theorem finalize_passes_through_witness:
  "HelloBuilder [] = Inr hello_instance
   \<and> (\<exists>v0 w0. createBuilder HelloBuilder ''build'' [] world0 = (Inr v0, w0)
        \<and> fst (call_member example_F v0 ''build'' [] w0) = Inr (Value (Str ''Hello, !'')))"
proof -
  have h: "HelloBuilder [] = Inr hello_instance" by (simp add: HelloBuilder_def)
  have i: "fst (inner_call example_F hello_instance ''build'' []) = Inr (Str ''Hello, !'')"
    by (simp add: ev hello_instance_def)
  from finalize_passes_through [where F = example_F and c = HelloBuilder and cargs = "[]"
      and inst = hello_instance and b = "''build''" and w = world0]
  have "\<exists>v0 w0. createBuilder HelloBuilder ''build'' [] world0 = (Inr v0, w0)
           \<and> fst (call_member example_F v0 ''build'' [] w0)
               = map_sum id Value (fst (inner_call example_F hello_instance ''build'' []))"
    using h by blast
  then show ?thesis using h i by simp
qed

section \<open>Data members\<close>

text \<open>
  C6, as stated, fails. The field \<^verbatim>\<open>options = { glutenFree: false, extraCheese: false }\<close>
  of the pizza builder is a plain data property in the specification's sense (not
  callable, and an object whose members are not callables), yet reading it through the
  wrapper does not give the underlying value: line 46 asks only whether the value is a
  non-null object, and the trap returns a group proxy.
\<close>

theorem data_object_member_counterexample:
  "createBuilderFactory [ClassArg PizzaBuilder] [] world0
     = (Inr (start_view ''build''), start_world pizza_instance)
   \<and> ''options'' \<noteq> buildMethod (start_view ''build'')
   \<and> lookup (instances (start_world pizza_instance) (target (start_view ''build'')))
        (SKey ''options'') = pizza_options
   \<and> spec_plain_data pizza_options
   \<and> handler_get (start_world pizza_instance) (start_view ''build'') (SKey ''options'')
       \<noteq> Inr (Plain pizza_options)"
  by (simp add: ev pizza_instance_def pizza_options_def pizza_preferences_def PizzaBuilder_def spec_plain_data_def spec_group_namespace_def numeral_2_eq_2 numeral_3_eq_3)

text \<open>
  C6, amended. Let \<open>p\<close> be a string key other than the finalize name whose member \<open>x\<close>
  is not a function. When \<open>x\<close> is not a non-null object either (it is absent or
  \<^verbatim>\<open>undefined\<close>, \<^verbatim>\<open>null\<close>, a boolean, a number or a string), reading \<open>p\<close> through a
  view gives \<open>x\<close> itself and never fails. When \<open>x\<close> is a non-null object or an array,
  whatever its members are, it is handled as a group namespace: reading \<open>p\<close> gives a
  group proxy with one wrapper for each enumerable key, or fails with
  \<^verbatim>\<open>Group '<p>' already used\<close> when \<open>p\<close> is in the Call-State.
\<close>

theorem non_object_member_read_unchanged:
  assumes "p \<noteq> buildMethod v"
    and "lookup (instances w (target v)) (SKey p) = x"
    and "\<not> is_function x"
  shows "handler_get w v (SKey p) =
     (if is_object x then
        (if p \<in> callsets w (called v) then Inl (Error (already_used p))
         else Inr (GroupProxy (map (\<lambda>key. (key, GroupFn v p x key)) (for_in_keys x))))
      else Inr (Plain x))"
  using assms by (simp add: handler_get_def Let_def)

text \<open>The string field \<^verbatim>\<open>_value\<close> of the builder of the first test.\<close>

theorem non_object_member_read_unchanged_witness:
  "''_value'' \<noteq> buildMethod (start_view ''build'')
   \<and> lookup (instances (start_world hello_instance) (target (start_view ''build''))) (SKey ''_value'')
       = Str ''''
   \<and> \<not> is_function (Str '''')
   \<and> handler_get (start_world hello_instance) (start_view ''build'') (SKey ''_value'')
       = Inr (Plain (Str ''''))"
proof -
  let ?v = "start_view ''build''" and ?w = "start_world hello_instance"
  have h1: "''_value'' \<noteq> buildMethod ?v" by (simp add: start_view_def)
  have h2: "lookup (instances ?w (target ?v)) (SKey ''_value'') = Str ''''"
    by (simp add: start_view_def start_world_def hello_instance_def lookup_def)
  have h3: "\<not> is_function (Str '''')" by simp
  from non_object_member_read_unchanged [OF h1 h2 h3]
  show ?thesis using h1 h2 by simp
qed

section \<open>Views of one chain\<close>

text \<open>
  C7. \<^verbatim>\<open>createBuilder\<close> allocates three new objects: the instance the constructor
  returned, an empty Call-State and the first view over both. Every call of a method
  other than finalize, and every call of a group member, that returns through the
  wrapper returns a view with a new identity (different from the receiver, which was
  allocated before) over the same instance, the same Call-State and the same finalize
  name, and allocates nothing else. No sequence of calls removes a name from any
  Call-State. Hence a one-time method consumed through one view is rejected through
  every view of the same chain, and so is a group.
\<close>

theorem views_share_instance_and_call_state:
  "(\<forall>c cargs inst b w.
      c cargs = Inr inst \<longrightarrow>
        (\<exists>v0 w0. createBuilder c b cargs w = (Inr v0, w0)
           \<and> instances w0 (target v0) = inst
           \<and> callsets w0 (called v0) = {}
           \<and> buildMethod v0 = b
           \<and> view_id v0 < fresh w0
           \<and> fresh w \<le> target v0 \<and> fresh w \<le> called v0 \<and> fresh w \<le> view_id v0
           \<and> fresh w0 = fresh w + 3))
   \<and> (\<forall>F v m args w r w'.
        call_member F v m args w = (Inr r, w') \<and> m \<noteq> buildMethod v \<longrightarrow>
          (\<exists>v'. r = View v' \<and> same_chain v v' \<and> view_id v' = fresh w
             \<and> fresh w' = Suc (fresh w) \<and> (view_id v < fresh w \<longrightarrow> v' \<noteq> v)))
   \<and> (\<forall>F v g k args w r w'.
        call_group F v g k args w = (Inr r, w') \<longrightarrow>
          (\<exists>v'. r = View v' \<and> same_chain v v' \<and> view_id v' = fresh w
             \<and> fresh w' = Suc (fresh w) \<and> (view_id v < fresh w \<longrightarrow> v' \<noteq> v)))
   \<and> (\<forall>F ss w a. callsets w a \<subseteq> callsets (exec_all F ss w) a)
   \<and> (\<forall>F v m args w r w1 u ss F' args'.
        startsWith m ''with'' \<and> m \<noteq> buildMethod v
        \<and> call_member F v m args w = (Inr r, w1)
        \<and> same_chain v u
        \<and> is_function (lookup (instances (exec_all F ss w1) (target u)) (SKey m))
        \<longrightarrow> call_member F' u m args' (exec_all F ss w1)
              = (Inl (Error (already_called m)), exec_all F ss w1))
   \<and> (\<forall>F v g k args w r w1 u ss F' j args'.
        call_group F v g k args w = (Inr r, w1)
        \<and> same_chain v u
        \<and> is_object (lookup (instances (exec_all F ss w1) (target u)) (SKey g))
        \<longrightarrow> call_group F' u g j args' (exec_all F ss w1)
              = (Inl (Error (already_used g)), exec_all F ss w1))"
proof (intro conjI)
  show "\<forall>c cargs inst b w.
      c cargs = Inr inst \<longrightarrow>
        (\<exists>v0 w0. createBuilder c b cargs w = (Inr v0, w0)
           \<and> instances w0 (target v0) = inst
           \<and> callsets w0 (called v0) = {}
           \<and> buildMethod v0 = b
           \<and> view_id v0 < fresh w0
           \<and> fresh w \<le> target v0 \<and> fresh w \<le> called v0 \<and> fresh w \<le> view_id v0
           \<and> fresh w0 = fresh w + 3)"
    by (intro allI impI) (rule createBuilder_fresh_state)
  show "\<forall>F v m args w r w'.
        call_member F v m args w = (Inr r, w') \<and> m \<noteq> buildMethod v \<longrightarrow>
          (\<exists>v'. r = View v' \<and> same_chain v v' \<and> view_id v' = fresh w
             \<and> fresh w' = Suc (fresh w) \<and> (view_id v < fresh w \<longrightarrow> v' \<noteq> v))"
    using member_call_new_view by fastforce
  show "\<forall>F v g k args w r w'.
        call_group F v g k args w = (Inr r, w') \<longrightarrow>
          (\<exists>v'. r = View v' \<and> same_chain v v' \<and> view_id v' = fresh w
             \<and> fresh w' = Suc (fresh w) \<and> (view_id v < fresh w \<longrightarrow> v' \<noteq> v))"
    using group_call_new_view by fastforce
  show "\<forall>F ss w a. callsets w a \<subseteq> callsets (exec_all F ss w) a"
    by (intro allI) (rule callsets_exec_all)
  show "\<forall>F v m args w r w1 u ss F' args'.
        startsWith m ''with'' \<and> m \<noteq> buildMethod v
        \<and> call_member F v m args w = (Inr r, w1)
        \<and> same_chain v u
        \<and> is_function (lookup (instances (exec_all F ss w1) (target u)) (SKey m))
        \<longrightarrow> call_member F' u m args' (exec_all F ss w1)
              = (Inl (Error (already_called m)), exec_all F ss w1)"
    by (intro allI impI, elim conjE, rule one_time_rejected_later(2); assumption)
  show "\<forall>F v g k args w r w1 u ss F' j args'.
        call_group F v g k args w = (Inr r, w1)
        \<and> same_chain v u
        \<and> is_object (lookup (instances (exec_all F ss w1) (target u)) (SKey g))
        \<longrightarrow> call_group F' u g j args' (exec_all F ss w1)
              = (Inl (Error (already_used g)), exec_all F ss w1)"
    by (intro allI impI, elim conjE, rule group_rejected_later(2); assumption)
qed

text \<open>
  The pizza builder: \<^verbatim>\<open>withSize('large')\<close> on the first view returns a different view,
  through which \<^verbatim>\<open>withSize('small')\<close> is rejected.
\<close>

theorem views_share_instance_and_call_state_witness:
  "PizzaBuilder [] = Inr pizza_instance
   \<and> (\<exists>v0 w0. createBuilder PizzaBuilder ''build'' [] world0 = (Inr v0, w0)
         \<and> instances w0 (target v0) = pizza_instance \<and> callsets w0 (called v0) = {})
   \<and> ''withSize'' \<noteq> buildMethod (start_view ''build'')
   \<and> view_id (start_view ''build'') < fresh (start_world pizza_instance)
   \<and> call_member example_F (start_view ''build'') ''withSize'' [Str ''large'']
        (start_world pizza_instance)
       = (Inr (View ((start_view ''build'')\<lparr>view_id := 3\<rparr>)), pizza_sized)
   \<and> (start_view ''build'')\<lparr>view_id := 3\<rparr> \<noteq> start_view ''build''
   \<and> same_chain (start_view ''build'') ((start_view ''build'')\<lparr>view_id := 3\<rparr>)
   \<and> is_function (lookup (instances (exec_all example_F [] pizza_sized)
         (target ((start_view ''build'')\<lparr>view_id := 3\<rparr>))) (SKey ''withSize''))
   \<and> call_member example_F ((start_view ''build'')\<lparr>view_id := 3\<rparr>) ''withSize'' [Str ''small'']
        pizza_sized
       = (Inl (Error ''Method 'withSize' already called''), pizza_sized)"
proof -
  let ?v = "start_view ''build''" and ?w = "start_world pizza_instance"
  let ?v1 = "(start_view ''build'')\<lparr>view_id := 3\<rparr>"
  note T = views_share_instance_and_call_state
  have h0: "PizzaBuilder [] = Inr pizza_instance" by (simp add: PizzaBuilder_def)
  have h1: "startsWith ''withSize'' ''with''" by (simp add: startsWith_def)
  have h2: "''withSize'' \<noteq> buildMethod ?v" by (simp add: start_view_def)
  have h3: "call_member example_F ?v ''withSize'' [Str ''large''] ?w = (Inr (View ?v1), pizza_sized)"
    by (simp add: ev pizza_instance_def pizza_options_def pizza_preferences_def pizza_sized_def)
  have h4: "view_id ?v < fresh ?w" by (simp add: start_view_def start_world_def)
  have h5: "same_chain ?v ?v1" by (simp add: same_chain_def)
  have h6: "is_function (lookup (instances (exec_all example_F [] pizza_sized) (target ?v1))
       (SKey ''withSize''))" by (simp add: ev pizza_instance_def pizza_options_def pizza_preferences_def pizza_sized_def)
  have t: "already_called ''withSize'' = ''Method 'withSize' already called''"
    by (simp add: already_called_def apostrophe_def)
  from T [THEN conjunct1] h0
  have a: "\<exists>v0 w0. createBuilder PizzaBuilder ''build'' [] world0 = (Inr v0, w0)
         \<and> instances w0 (target v0) = pizza_instance \<and> callsets w0 (called v0) = {}"
    by blast
  from T [THEN conjunct2, THEN conjunct1] h3 h2 h4
  have b: "?v1 \<noteq> ?v" by blast
  from T [THEN conjunct2, THEN conjunct2, THEN conjunct2, THEN conjunct2, THEN conjunct1]
    h1 h2 h3 h5 h6
  have "call_member example_F ?v1 ''withSize'' [Str ''small''] (exec_all example_F [] pizza_sized)
       = (Inl (Error (already_called ''withSize'')), exec_all example_F [] pizza_sized)"
    by blast
  then have c: "call_member example_F ?v1 ''withSize'' [Str ''small''] pizza_sized
       = (Inl (Error ''Method 'withSize' already called''), pizza_sized)"
    unfolding t by simp
  show ?thesis
    using h0 a h2 h4 h3 b h5 h6 c by blast
qed

section \<open>Factories\<close>

text \<open>
  C8. \<^verbatim>\<open>createBuilderFactory(cls)\<close> is \<^verbatim>\<open>createBuilder\<close> with the finalize name
  \<^verbatim>\<open>'build'\<close>; \<^verbatim>\<open>createBuilderFactory(name, cls)\<close> and
  \<^verbatim>\<open>createBuilderFactoryFor(cls, name)\<close> are \<^verbatim>\<open>createBuilder\<close> with the given name. When
  the constructor returns, the view they give has that finalize name, and calling it
  gives what the inner method of that name gives on the new instance. For the builder
  of the last test, whose only member is \<^verbatim>\<open>run()\<close>, wrapping it with the name \<^verbatim>\<open>'run'\<close>
  and calling \<^verbatim>\<open>run()\<close> gives \<^verbatim>\<open>'done'\<close>, which is what the inner \<^verbatim>\<open>run()\<close> returns.
\<close>

theorem factories_delegate_to_createBuilder:
  "createBuilderFactory [ClassArg c] = createBuilder c ''build''
   \<and> createBuilderFactory [NameArg m, ClassArg c] = createBuilder c m
   \<and> createBuilderFactoryFor c m = createBuilder c m
   \<and> (c cargs = Inr inst \<longrightarrow>
        (\<exists>v0 w0. createBuilderFactory [ClassArg c] cargs w = (Inr v0, w0)
           \<and> buildMethod v0 = ''build'')
        \<and> (\<exists>v0 w0. createBuilderFactory [NameArg m, ClassArg c] cargs w = (Inr v0, w0)
             \<and> buildMethod v0 = m
             \<and> fst (call_member F v0 m [] w0) = map_sum id Value (fst (inner_call F inst m []))))
   \<and> (\<exists>v0 w0. createBuilderFactoryFor RunBuilder ''run'' [] world0 = (Inr v0, w0)
         \<and> call_member example_F v0 ''run'' [] w0 = (Inr (Value (Str ''done'')), w0))
   \<and> inner_call example_F run_instance ''run'' [] = (Inr (Str ''done''), run_instance)"
proof (intro conjI impI)
  show "createBuilderFactory [ClassArg c] = createBuilder c ''build''" by simp
  show "createBuilderFactory [NameArg m, ClassArg c] = createBuilder c m" by simp
  show "createBuilderFactoryFor c m = createBuilder c m"
    by (simp add: createBuilderFactoryFor_def)
  show "\<exists>v0 w0. createBuilderFactory [ClassArg c] cargs w = (Inr v0, w0) \<and> buildMethod v0 = ''build''"
    if "c cargs = Inr inst"
    using that factory_build_name [of c cargs inst "''build''" w F] by auto
  show "\<exists>v0 w0. createBuilderFactory [NameArg m, ClassArg c] cargs w = (Inr v0, w0)
             \<and> buildMethod v0 = m
             \<and> fst (call_member F v0 m [] w0) = map_sum id Value (fst (inner_call F inst m []))"
    if "c cargs = Inr inst"
    using that factory_build_name [of c cargs inst m w F] by simp
  show "\<exists>v0 w0. createBuilderFactoryFor RunBuilder ''run'' [] world0 = (Inr v0, w0)
         \<and> call_member example_F v0 ''run'' [] w0 = (Inr (Value (Str ''done'')), w0)"
    by (rule run_example)
  show "inner_call example_F run_instance ''run'' [] = (Inr (Str ''done''), run_instance)"
    by (simp add: ev RunBuilder_def run_instance_def createBuilderFactoryFor_def)
qed

text \<open>The builders of the last and of the first test.\<close>

theorem factories_delegate_to_createBuilder_witness:
  "RunBuilder [] = Inr run_instance
   \<and> (\<exists>v0 w0. createBuilderFactory [NameArg ''run'', ClassArg RunBuilder] [] world0 = (Inr v0, w0)
         \<and> buildMethod v0 = ''run''
         \<and> fst (call_member example_F v0 ''run'' [] w0) = Inr (Value (Str ''done'')))
   \<and> (\<exists>v0 w0. createBuilderFactory [ClassArg HelloBuilder] [] world0 = (Inr v0, w0)
         \<and> buildMethod v0 = ''build'')"
proof -
  note T = factories_delegate_to_createBuilder
  have h: "RunBuilder [] = Inr run_instance" by (simp add: RunBuilder_def)
  have k: "HelloBuilder [] = Inr hello_instance" by (simp add: HelloBuilder_def)
  have i: "map_sum id Value (fst (inner_call example_F run_instance ''run'' []))
       = Inr (Value (Str ''done''))" by (simp add: ev RunBuilder_def run_instance_def createBuilderFactoryFor_def)
  from T [where c = RunBuilder and cargs = "[]" and inst = run_instance and m = "''run''"
      and w = world0 and F = example_F] h
  have a: "\<exists>v0 w0. createBuilderFactory [NameArg ''run'', ClassArg RunBuilder] [] world0 = (Inr v0, w0)
         \<and> buildMethod v0 = ''run''
         \<and> fst (call_member example_F v0 ''run'' [] w0) = Inr (Value (Str ''done''))"
    unfolding i by blast
  from T [where c = HelloBuilder and cargs = "[]" and inst = hello_instance and w = world0] k
  have b: "\<exists>v0 w0. createBuilderFactory [ClassArg HelloBuilder] [] world0 = (Inr v0, w0)
         \<and> buildMethod v0 = ''build''"
    by blast
  show ?thesis using h a b by blast
qed

section \<open>Inner methods that throw\<close>

text \<open>
  C9. When the body of a one-time method that has not been called yet throws, the call
  through the wrapper ends with the thrown value, the store differs from the one before
  only in what the body did to the instance (the Call-State and the allocated objects
  are the same), and reading the method again through the view is not rejected. The
  same holds for a member of a group that has not been used yet: the group name is
  not recorded, and reading the group again is not rejected.
\<close>

theorem inner_throw_records_nothing:
  "(\<forall>F v w m n args ex inst'.
      startsWith m ''with'' \<and> m \<noteq> buildMethod v
      \<and> m \<notin> callsets w (called v)
      \<and> lookup (instances w (target v)) (SKey m) = Fn n
      \<and> F n ThisInstance args (instances w (target v)) = (Throw ex, inst')
      \<longrightarrow> call_member F v m args w = (Inl (Thrown ex), store_instance (target v) inst' w)
          \<and> callsets (store_instance (target v) inst' w) = callsets w
          \<and> fresh (store_instance (target v) inst' w) = fresh w
          \<and> (\<exists>x. handler_get (store_instance (target v) inst' w) v (SKey m) = Inr x))
   \<and> (\<forall>F v w g gv k n args ex inst'.
        g \<noteq> buildMethod v
        \<and> g \<notin> callsets w (called v)
        \<and> lookup (instances w (target v)) (SKey g) = gv \<and> is_object gv
        \<and> member gv k = Fn n
        \<and> F n (ThisValue gv) args (instances w (target v)) = (Throw ex, inst')
        \<longrightarrow> call_group F v g k args w = (Inl (Thrown ex), store_instance (target v) inst' w)
            \<and> callsets (store_instance (target v) inst' w) = callsets w
            \<and> fresh (store_instance (target v) inst' w) = fresh w
            \<and> (\<exists>x. handler_get (store_instance (target v) inst' w) v (SKey g) = Inr x))"
proof (intro conjI allI impI; elim conjE)
  fix F :: funtab and v :: view and w :: world and m n args ex inst'
  assume s: "startsWith m ''with''"
  assume a: "m \<noteq> buildMethod v" "m \<notin> callsets w (called v)"
    "lookup (instances w (target v)) (SKey m) = Fn n"
    "F n ThisInstance args (instances w (target v)) = (Throw ex, inst')"
  show "call_member F v m args w = (Inl (Thrown ex), store_instance (target v) inst' w)"
    using a by (intro method_throw) simp_all
  show "callsets (store_instance (target v) inst' w) = callsets w"
    by (simp add: store_instance_def)
  show "fresh (store_instance (target v) inst' w) = fresh w"
    by (simp add: store_instance_def)
  show "\<exists>x. handler_get (store_instance (target v) inst' w) v (SKey m) = Inr x"
    using a(2) by (intro get_not_rejected) (simp add: store_instance_def)
next
  fix F :: funtab and v :: view and w :: world and g gv k n args ex inst'
  assume a: "g \<noteq> buildMethod v" "g \<notin> callsets w (called v)"
    "lookup (instances w (target v)) (SKey g) = gv" "is_object gv" "member gv k = Fn n"
    "F n (ThisValue gv) args (instances w (target v)) = (Throw ex, inst')"
  show "call_group F v g k args w = (Inl (Thrown ex), store_instance (target v) inst' w)"
    using a by (rule group_throw)
  show "callsets (store_instance (target v) inst' w) = callsets w"
    by (simp add: store_instance_def)
  show "fresh (store_instance (target v) inst' w) = fresh w"
    by (simp add: store_instance_def)
  show "\<exists>x. handler_get (store_instance (target v) inst' w) v (SKey g) = Inr x"
    using a(2) by (intro get_not_rejected) (simp add: store_instance_def)
qed

text \<open>
  The probe builder: \<^verbatim>\<open>withPort(-1)\<close> throws after counting the attempt, the Call-State
  stays empty, and \<^verbatim>\<open>withPort(8080).build()\<close> then gives 8080; \<^verbatim>\<open>mode.strict()\<close> throws
  as well.
\<close>

theorem inner_throw_records_nothing_witness:
  "createBuilderFactory [ClassArg ProbeBuilder] [] world0
     = (Inr (start_view ''build''), start_world probe_instance)
   \<and> startsWith ''withPort'' ''with''
   \<and> ''withPort'' \<noteq> buildMethod (start_view ''build'')
   \<and> ''withPort'' \<notin> callsets (start_world probe_instance) (called (start_view ''build''))
   \<and> lookup (instances (start_world probe_instance) (target (start_view ''build''))) (SKey ''withPort'')
       = Fn 8
   \<and> example_F 8 ThisInstance [Num (- 1)]
        (instances (start_world probe_instance) (target (start_view ''build'')))
       = (Throw (Str ''bad port''), assign probe_instance (SKey ''attempts'') (Num 1))
   \<and> call_member example_F (start_view ''build'') ''withPort'' [Num (- 1)] (start_world probe_instance)
       = (Inl (Thrown (Str ''bad port'')),
          store_instance 0 (assign probe_instance (SKey ''attempts'') (Num 1))
            (start_world probe_instance))
   \<and> callsets (store_instance 0 (assign probe_instance (SKey ''attempts'') (Num 1))
                  (start_world probe_instance)) (called (start_view ''build'')) = {}
   \<and> (\<exists>v1 w1. call_member example_F (start_view ''build'') ''withPort'' [Num 8080]
                 (store_instance 0 (assign probe_instance (SKey ''attempts'') (Num 1))
                    (start_world probe_instance)) = (Inr (View v1), w1)
         \<and> fst (call_member example_F v1 ''build'' [] w1) = Inr (Value (Num 8080)))
   \<and> ''mode'' \<notin> callsets (start_world probe_instance) (called (start_view ''build''))
   \<and> member probe_mode ''strict'' = Fn 9
   \<and> call_group example_F (start_view ''build'') ''mode'' ''strict'' [] (start_world probe_instance)
       = (Inl (Thrown (Str ''unsupported'')),
          store_instance 0 (assign probe_instance (SKey ''attempts'') (Num 1))
            (start_world probe_instance))"
proof -
  let ?v = "start_view ''build''" and ?w = "start_world probe_instance"
  let ?i1 = "assign probe_instance (SKey ''attempts'') (Num 1)"
  note T = inner_throw_records_nothing
  have p: "createBuilderFactory [ClassArg ProbeBuilder] [] world0 = (Inr ?v, ?w)"
    by (simp add: createBuilder_def new_Proxy_def ProbeBuilder_def world0_def start_view_def
        start_world_def numeral_2_eq_2 numeral_3_eq_3)
  have tv: "target ?v = 0" by (simp add: start_view_def)
  have h1: "''withPort'' \<noteq> buildMethod ?v" by (simp add: start_view_def)
  have h2: "''withPort'' \<notin> callsets ?w (called ?v)" by (simp add: start_view_def start_world_def)
  have h3: "lookup (instances ?w (target ?v)) (SKey ''withPort'') = Fn 8" by (simp add: ev probe_instance_def probe_mode_def)
  have h4: "example_F 8 ThisInstance [Num (- 1)] (instances ?w (target ?v))
       = (Throw (Str ''bad port''), ?i1)" by (simp add: ev probe_instance_def probe_mode_def)
  have h0: "startsWith ''withPort'' ''with''" by (simp add: startsWith_def)
  from T [THEN conjunct1] h0 h1 h2 h3 h4
  have a: "call_member example_F ?v ''withPort'' [Num (- 1)] ?w
       = (Inl (Thrown (Str ''bad port'')), store_instance (target ?v) ?i1 ?w)"
    and b: "callsets (store_instance (target ?v) ?i1 ?w) = callsets ?w"
    by blast+
  have b': "callsets (store_instance 0 ?i1 ?w) (called ?v) = {}"
    using b unfolding tv by (simp add: start_view_def start_world_def)
  have c: "\<exists>v1 w1. call_member example_F ?v ''withPort'' [Num 8080] (store_instance 0 ?i1 ?w)
         = (Inr (View v1), w1)
         \<and> fst (call_member example_F v1 ''build'' [] w1) = Inr (Value (Num 8080))"
    by (simp add: ev probe_instance_def probe_mode_def)
  have g1: "''mode'' \<noteq> buildMethod ?v" by (simp add: start_view_def)
  have g2: "''mode'' \<notin> callsets ?w (called ?v)" by (simp add: start_view_def start_world_def)
  have g3: "lookup (instances ?w (target ?v)) (SKey ''mode'') = probe_mode" by (simp add: ev probe_instance_def probe_mode_def)
  have g4: "is_object probe_mode" by (simp add: probe_mode_def)
  have g5: "member probe_mode ''strict'' = Fn 9" by (simp add: ev probe_instance_def probe_mode_def)
  have g6: "example_F 9 (ThisValue probe_mode) [] (instances ?w (target ?v))
       = (Throw (Str ''unsupported''), ?i1)" by (simp add: ev probe_instance_def probe_mode_def)
  from T [THEN conjunct2] g1 g2 g3 g4 g5 g6
  have d: "call_group example_F ?v ''mode'' ''strict'' [] ?w
       = (Inl (Thrown (Str ''unsupported'')), store_instance (target ?v) ?i1 ?w)"
    by blast
  show ?thesis
    using p h0 h1 h2 h3 h4 a b' c g2 g5 d unfolding tv by blast
qed

section \<open>Symbol keys\<close>

text \<open>
  C10. Reading a property whose key is not a string (a symbol) through a view gives
  \<^verbatim>\<open>undefined\<close>, whatever the store holds: the trap returns at line 26, before it
  looks at the inner builder, so a symbol-keyed member of the inner builder is never
  delegated to.
\<close>

theorem symbol_key_reads_undefined:
  "handler_get w v (Sym s) = Inr (Plain Undefined)"
  by (rule get_sym)

theorem symbol_key_reads_undefined_witness:
  "lookup (instances (start_world probe_instance) (target (start_view ''build''))) (Sym 0) = Str ''probe''
   \<and> handler_get (start_world probe_instance) (start_view ''build'') (Sym 0) = Inr (Plain Undefined)"
  using symbol_key_reads_undefined [of "start_world probe_instance" "start_view ''build''" 0]
  by (simp add: start_world_def start_view_def probe_instance_def lookup_def)

section \<open>Function values kept by the caller\<close>

text \<open>
  The checks of lines 35 and 47 are made when the property is read. The functions the
  trap returned are not checked again when they are called: they run the inner method
  and return a view even when the name is already in the Call-State. The rejections
  proved above are those of the calls \<^verbatim>\<open>view.m(args)\<close> and \<^verbatim>\<open>view.g.k(args)\<close>, which
  read the property each time.
\<close>

lemma kept_function_not_checked_again:
  assumes "F n ThisInstance args (instances w (target v)) = (Return r, inst')"
    and "m \<in> callsets w (called v)"
  shows "apply_closure F (MethodFn v m (Fn n) True) args w
           = (Inr (View (v\<lparr>view_id := fresh w\<rparr>)), after_call v m True inst' w)"
proof -
  have "call_value F (Fn n) ThisInstance args (instances w (target v)) = (Inr r, inst')"
    using assms(1) by (simp add: call_value_def)
  then show ?thesis by (rule apply_MethodFn_Inr)
qed

end
